theory Spec2Isabelle
  imports Main "HOL-Library.Sublist"
begin

section \<open>The JavaScript runtime the plugin runs on\<close>

text \<open>
  The plugin (\<^verbatim>\<open>plugin/node/plugin.js\<close> and \<^verbatim>\<open>plugin/node/utils.js\<close>) is JavaScript.
  A cell of a CSV file is a text; it is modelled as a \<^typ>\<open>string\<close> holding the UTF-8 bytes
  of the text, so that every text a file can hold is a value of the model.

  The built-ins of the runtime that the plugin calls are not code of the repository:
  \<^item> \<^verbatim>\<open>isNaN(Number(s))\<close> is fixed by ECMAScript (the grammar \<open>StringNumericLiteral\<close>)
    and is modelled below as \<open>Number_isNaN\<close>;
  \<^item> \<^verbatim>\<open>s.toLowerCase()\<close> is only ever compared with ASCII tokens;
  \<^item> \<^verbatim>\<open>Date.parse\<close>, \<^verbatim>\<open>parseInt\<close>, \<^verbatim>\<open>parseFloat\<close> and \<^verbatim>\<open>new Date\<close> are taken as
    parameters (the record \<open>runtime\<close>): what \<^verbatim>\<open>Date.parse\<close> accepts beyond the ISO format
    is left to the implementation by ECMAScript, and the numeric results are IEEE doubles.
\<close>

subsection \<open>White space and numeric literals of ECMAScript\<close>

text \<open>
  \<open>StrWhiteSpaceChar\<close>: the code points TAB, LF, VT, FF, CR, SP, NBSP, U+1680,
  U+2000 to U+200A, U+2028, U+2029, U+202F, U+205F, U+3000 and U+FEFF, each in UTF-8.
\<close>

definition StrWhiteSpaceChar :: "string list" where
  "StrWhiteSpaceChar =
    [[CHR 0x09], [CHR 0x0A], [CHR 0x0B], [CHR 0x0C], [CHR 0x0D], [CHR 0x20],
     [CHR 0xC2, CHR 0xA0],
     [CHR 0xE1, CHR 0x9A, CHR 0x80],
     [CHR 0xE2, CHR 0x80, CHR 0x80], [CHR 0xE2, CHR 0x80, CHR 0x81],
     [CHR 0xE2, CHR 0x80, CHR 0x82], [CHR 0xE2, CHR 0x80, CHR 0x83],
     [CHR 0xE2, CHR 0x80, CHR 0x84], [CHR 0xE2, CHR 0x80, CHR 0x85],
     [CHR 0xE2, CHR 0x80, CHR 0x86], [CHR 0xE2, CHR 0x80, CHR 0x87],
     [CHR 0xE2, CHR 0x80, CHR 0x88], [CHR 0xE2, CHR 0x80, CHR 0x89],
     [CHR 0xE2, CHR 0x80, CHR 0x8A],
     [CHR 0xE2, CHR 0x80, CHR 0xA8], [CHR 0xE2, CHR 0x80, CHR 0xA9],
     [CHR 0xE2, CHR 0x80, CHR 0xAF],
     [CHR 0xE2, CHR 0x81, CHR 0x9F],
     [CHR 0xE3, CHR 0x80, CHR 0x80],
     [CHR 0xEF, CHR 0xBB, CHR 0xBF]]"

text \<open>The number of bytes of the white space character a text starts with; 0 when it
  starts with none.\<close>

definition strWhiteSpaceLen :: "string \<Rightarrow> nat" where
  "strWhiteSpaceLen s =
     (case find (\<lambda>w. prefix w s) StrWhiteSpaceChar of None \<Rightarrow> 0 | Some w \<Rightarrow> length w)"

function dropStrWhiteSpace :: "string \<Rightarrow> string" where
  "dropStrWhiteSpace s =
     (if strWhiteSpaceLen s = 0 then s
      else dropStrWhiteSpace (drop (strWhiteSpaceLen s) s))"
  by pat_completeness auto

termination dropStrWhiteSpace
proof (relation "measure length")
  show "wf (measure length)" by simp
next
  fix s :: string
  assume nonzero: "strWhiteSpaceLen s \<noteq> 0"
  have "strWhiteSpaceLen s \<le> length s"
  proof (cases "find (\<lambda>w. prefix w s) StrWhiteSpaceChar")
    case None
    then show ?thesis by (simp add: strWhiteSpaceLen_def)
  next
    case (Some w)
    then have "prefix w s" by (auto simp: find_Some_iff)
    then have "length w \<le> length s" by (rule prefix_length_le)
    with Some show ?thesis by (simp add: strWhiteSpaceLen_def)
  qed
  with nonzero show "(drop (strWhiteSpaceLen s) s, s) \<in> measure length" by simp
qed

declare dropStrWhiteSpace.simps [simp del]

text \<open>The part of a text before its first white space character.\<close>

fun untilStrWhiteSpace :: "string \<Rightarrow> string" where
  "untilStrWhiteSpace [] = []"
| "untilStrWhiteSpace (c # cs) =
     (if strWhiteSpaceLen (c # cs) = 0 then c # untilStrWhiteSpace cs else [])"

definition DecimalDigit :: "char \<Rightarrow> bool" where
  "DecimalDigit c = (c \<in> set ''0123456789'')"

definition DecimalDigits :: "string \<Rightarrow> bool" where
  "DecimalDigits s = (s \<noteq> [] \<and> list_all DecimalDigit s)"

text \<open>\<open>ExponentPart\<close>: \<^verbatim>\<open>e\<close> or \<^verbatim>\<open>E\<close>, an optional sign, decimal digits.\<close>

definition ExponentPart :: "string \<Rightarrow> bool" where
  "ExponentPart s =
     (case s of
        [] \<Rightarrow> False
      | e # r \<Rightarrow> e \<in> set ''eE'' \<and>
          (case r of
             [] \<Rightarrow> False
           | g # ds \<Rightarrow> if g \<in> set ''+-'' then DecimalDigits ds else DecimalDigits r))"

text \<open>\<open>StrUnsignedDecimalLiteral\<close>: \<^verbatim>\<open>Infinity\<close>, or digits with an optional fraction
  and exponent, or a fraction that starts with the dot.\<close>

definition StrUnsignedDecimalLiteral :: "string \<Rightarrow> bool" where
  "StrUnsignedDecimalLiteral s =
     (s = ''Infinity'' \<or>
      (let ip = takeWhile DecimalDigit s; r = dropWhile DecimalDigit s
       in case r of
            [] \<Rightarrow> ip \<noteq> []
          | c # r' \<Rightarrow>
              if c = CHR ''.'' then
                (let fp = takeWhile DecimalDigit r'; x = dropWhile DecimalDigit r'
                 in (ip \<noteq> [] \<or> fp \<noteq> []) \<and> (x = [] \<or> ExponentPart x))
              else ip \<noteq> [] \<and> ExponentPart r))"

definition StrDecimalLiteral :: "string \<Rightarrow> bool" where
  "StrDecimalLiteral s =
     (case s of
        [] \<Rightarrow> False
      | c # r \<Rightarrow> if c \<in> set ''+-'' then StrUnsignedDecimalLiteral r
                 else StrUnsignedDecimalLiteral s)"

text \<open>\<open>NonDecimalIntegerLiteral\<close>: \<^verbatim>\<open>0x\<close>, \<^verbatim>\<open>0o\<close> or \<^verbatim>\<open>0b\<close> and digits of that base,
  without a sign.\<close>

definition NonDecimalIntegerLiteral :: "string \<Rightarrow> bool" where
  "NonDecimalIntegerLiteral s =
     (case s of
        z # b # ds \<Rightarrow>
          z = CHR ''0'' \<and> ds \<noteq> [] \<and>
          ((b \<in> set ''xX'' \<and> list_all (\<lambda>c. c \<in> set ''0123456789abcdefABCDEF'') ds) \<or>
           (b \<in> set ''oO'' \<and> list_all (\<lambda>c. c \<in> set ''01234567'') ds) \<or>
           (b \<in> set ''bB'' \<and> list_all (\<lambda>c. c \<in> set ''01'') ds))
      | _ \<Rightarrow> False)"

definition StrNumericLiteral :: "string \<Rightarrow> bool" where
  "StrNumericLiteral s = (StrDecimalLiteral s \<or> NonDecimalIntegerLiteral s)"

text \<open>
  \<^verbatim>\<open>isNaN(Number(s))\<close> for a string \<open>s\<close>: \<^verbatim>\<open>Number\<close> gives a number (0 for a text of
  white space only) when \<open>s\<close> is white space, an optional numeric literal and white space,
  and NaN otherwise.
\<close>

definition Number_isNaN :: "string \<Rightarrow> bool" where
  "Number_isNaN s =
     (let t = dropStrWhiteSpace s;
          lit = untilStrWhiteSpace t;
          rest = drop (length lit) t
      in \<not> (t = [] \<or> (StrNumericLiteral lit \<and> dropStrWhiteSpace rest = [])))"

text \<open>
  \<^verbatim>\<open>s.toLowerCase()\<close>, on the letters A to Z. The plugin compares the result with the
  tokens \<^verbatim>\<open>true\<close>, \<^verbatim>\<open>false\<close>, \<^verbatim>\<open>t\<close> and \<^verbatim>\<open>f\<close> only, and no character outside
  A to Z has one of their letters as its lower case.
\<close>

definition toLowerCase :: "string \<Rightarrow> string" where
  "toLowerCase s =
     map (\<lambda>c. case map_of (zip ''ABCDEFGHIJKLMNOPQRSTUVWXYZ'' ''abcdefghijklmnopqrstuvwxyz'') c of
                 None \<Rightarrow> c
               | Some l \<Rightarrow> l) s"

subsection \<open>The built-ins taken as parameters\<close>

text \<open>
  \<open>Date_parse_isNaN s\<close> is \<^verbatim>\<open>isNaN(Date.parse(s))\<close>; \<open>parseInt\<close> and \<open>parseFloat\<close> are
  the built-ins of these names, with numbers of a type \<open>'n\<close>; \<open>Date_setUTCHours0 s\<close> is
  the date \<^verbatim>\<open>new Date(s)\<close> after \<^verbatim>\<open>setUTCHours(0, 0, 0, 0)\<close>, of a type \<open>'d\<close>.
\<close>

record ('n, 'd) runtime =
  Date_parse_isNaN :: "string \<Rightarrow> bool"
  parseInt :: "string \<Rightarrow> 'n"
  parseFloat :: "string \<Rightarrow> 'n"
  Date_setUTCHours0 :: "string \<Rightarrow> 'd"

datatype ('n, 'd) jsvalue =
    JSUndefined
  | JSNull
  | JSNumber 'n
  | JSBoolean bool
  | JSDate 'd
  | JSString string

datatype js_error = TypeError

section \<open>Type inference: \<^verbatim>\<open>getType\<close> and \<^verbatim>\<open>convertToType\<close>\<close>

text \<open>
  The repository holds two versions of \<^verbatim>\<open>utils.js\<close>. The definitions without a suffix
  follow the version with majority-vote inference (the second file of
  \<^verbatim>\<open>src/unnamed/part_001\<close>), whose boolean tokens are \<^verbatim>\<open>true\<close>, \<^verbatim>\<open>false\<close>, \<^verbatim>\<open>t\<close>
  and \<^verbatim>\<open>f\<close>; the definitions with the suffix \<open>_strict\<close> follow
  \<^verbatim>\<open>src/plugin/node/utils.js\<close>, whose boolean tokens are \<^verbatim>\<open>true\<close> and \<^verbatim>\<open>false\<close>.
\<close>

definition getType :: "('n, 'd) runtime \<Rightarrow> string \<Rightarrow> string" where
  "getType rt property =
     (if \<not> Number_isNaN property then
        (if CHR ''.'' \<notin> set property then ''integer'' else ''number'')
      else if toLowerCase property = ''true'' \<or> toLowerCase property = ''false'' \<or>
              toLowerCase property = ''t'' \<or> toLowerCase property = ''f'' then ''boolean''
      else if \<not> Date_parse_isNaN rt property then ''datetime''
      else ''string'')"

definition getType_strict :: "('n, 'd) runtime \<Rightarrow> string \<Rightarrow> string" where
  "getType_strict rt property =
     (if \<not> Number_isNaN property then
        (if CHR ''.'' \<notin> set property then ''integer'' else ''number'')
      else if toLowerCase property = ''true'' \<or> toLowerCase property = ''false'' then ''boolean''
      else if \<not> Date_parse_isNaN rt property then ''datetime''
      else ''string'')"

text \<open>A \<^verbatim>\<open>switch\<close> without a default: a type that is none of the five gives
  \<^verbatim>\<open>undefined\<close>.\<close>

definition convertToType :: "('n, 'd) runtime \<Rightarrow> string \<Rightarrow> string \<Rightarrow> ('n, 'd) jsvalue" where
  "convertToType rt data type =
     (if type = ''integer'' then JSNumber (parseInt rt data)
      else if type = ''number'' then JSNumber (parseFloat rt data)
      else if type = ''boolean'' then
        JSBoolean (toLowerCase data = ''true'' \<or> toLowerCase data = ''false'' \<or>
                   toLowerCase data = ''t'' \<or> toLowerCase data = ''f'')
      else if type = ''datetime'' then JSDate (Date_setUTCHours0 rt data)
      else if type = ''string'' then JSString data
      else JSUndefined)"

definition convertToType_strict ::
  "('n, 'd) runtime \<Rightarrow> string \<Rightarrow> string \<Rightarrow> ('n, 'd) jsvalue" where
  "convertToType_strict rt data type =
     (if type = ''integer'' then JSNumber (parseInt rt data)
      else if type = ''number'' then JSNumber (parseFloat rt data)
      else if type = ''boolean'' then
        JSBoolean (toLowerCase data = ''true'' \<or> toLowerCase data = ''false'')
      else if type = ''datetime'' then JSDate (Date_setUTCHours0 rt data)
      else if type = ''string'' then JSString data
      else JSUndefined)"

section \<open>Schema discovery: \<^verbatim>\<open>getSchema\<close>\<close>

record property =
  pname :: string
  ptype :: string

text \<open>
  A schema object of the plugin. \<^verbatim>\<open>getSchema\<close> builds it with an array of file paths as
  \<^verbatim>\<open>settings\<close>; in the request of \<^verbatim>\<open>Publish\<close> the field \<^verbatim>\<open>settings\<close> is one string,
  hence the type parameter.
\<close>

record 's schema =
  name :: string
  settings :: 's
  properties :: "property list"

text \<open>
  The CSV reader is a library. What \<^verbatim>\<open>getSchema\<close> receives from it is \<^verbatim>\<open>data\<close>, one
  object per data row with the header names as keys; an object is modelled as the list
  of its keys and values in the order of \<^verbatim>\<open>Object.keys\<close>. The header itself is not
  passed on.
\<close>

type_synonym row_object = "(string \<times> string) list"

text \<open>The \<^verbatim>\<open>switch\<close> of lines 261 to 277: the index of a type in a type count array.\<close>

definition typeCountIndex :: "string \<Rightarrow> nat option" where
  "typeCountIndex t =
     (if t = ''integer'' then Some 0
      else if t = ''number'' then Some 1
      else if t = ''boolean'' then Some 2
      else if t = ''datetime'' then Some 3
      else if t = ''string'' then Some 4
      else None)"

text \<open>
  The loop over the values of one row (\<^verbatim>\<open>for (var j in values)\<close>):
  \<^verbatim>\<open>typeCountArray[j][k]++\<close>. A row with more values than the first row has keys reads
  \<^verbatim>\<open>typeCountArray[j]\<close> out of range, which is \<^verbatim>\<open>undefined\<close>, and indexing it raises a
  TypeError.
\<close>

fun countRow ::
  "('n, 'd) runtime \<Rightarrow> nat \<Rightarrow> string list \<Rightarrow> nat list list \<Rightarrow> js_error + nat list list" where
  "countRow rt j [] typeCountArray = Inr typeCountArray"
| "countRow rt j (v # values) typeCountArray =
     (case typeCountIndex (getType rt v) of
        None \<Rightarrow> countRow rt (Suc j) values typeCountArray
      | Some k \<Rightarrow>
          if j < length typeCountArray then
            countRow rt (Suc j) values
              (typeCountArray[j := (typeCountArray ! j)[k := Suc (typeCountArray ! j ! k)]])
          else Inl TypeError)"

text \<open>The loop over the rows (\<^verbatim>\<open>for (var i in data)\<close>).\<close>

fun countRows ::
  "('n, 'd) runtime \<Rightarrow> row_object list \<Rightarrow> nat list list \<Rightarrow> js_error + nat list list" where
  "countRows rt [] typeCountArray = Inr typeCountArray"
| "countRows rt (row # data) typeCountArray =
     (case countRow rt 0 (map snd row) typeCountArray of
        Inl e \<Rightarrow> Inl e
      | Inr typeCountArray' \<Rightarrow> countRows rt data typeCountArray')"

text \<open>\<^verbatim>\<open>getIndexOfMax\<close>: the loop from index 1 keeps the first index of the largest
  value, since it moves on a strictly larger value only.\<close>

fun getIndexOfMax_loop :: "nat \<Rightarrow> nat list \<Rightarrow> nat \<Rightarrow> nat \<Rightarrow> nat" where
  "getIndexOfMax_loop i [] mx maxIndex = maxIndex"
| "getIndexOfMax_loop i (x # arr) mx maxIndex =
     (if x > mx then getIndexOfMax_loop (Suc i) arr x i
      else getIndexOfMax_loop (Suc i) arr mx maxIndex)"

definition getIndexOfMax :: "nat list \<Rightarrow> int" where
  "getIndexOfMax arr =
     (case arr of
        [] \<Rightarrow> - 1
      | x # rest \<Rightarrow> int (getIndexOfMax_loop 1 rest x 0))"

text \<open>
  The \<^verbatim>\<open>switch\<close> of lines 284 to 300 on the index of the largest count. It has no default:
  on another index the variable \<^verbatim>\<open>type\<close> keeps the value it had, which is the second
  argument here.
\<close>

definition typeOfIndex :: "int \<Rightarrow> string \<Rightarrow> string" where
  "typeOfIndex typeIndex type =
     (if typeIndex = 0 then ''integer''
      else if typeIndex = 1 then ''number''
      else if typeIndex = 2 then ''boolean''
      else if typeIndex = 3 then ''datetime''
      else if typeIndex = 4 then ''string''
      else type)"

text \<open>The loop \<^verbatim>\<open>for (var i in typeCountArray)\<close> that pushes one property per type count
  array; the array has one entry per key.\<close>

fun pushProperties :: "string list \<Rightarrow> nat \<Rightarrow> nat list list \<Rightarrow> string \<Rightarrow> property list" where
  "pushProperties keys i [] type = []"
| "pushProperties keys i (typeCount # typeCountArray) type =
     (let type' = typeOfIndex (getIndexOfMax typeCount) type
      in \<lparr>pname = keys ! i, ptype = type'\<rparr> #
         pushProperties keys (Suc i) typeCountArray type')"

text \<open>
  Lines 236 to 306 of \<^verbatim>\<open>getSchema\<close>: the keys of the first row and the inferred
  properties. With no data row \<^verbatim>\<open>data[0]\<close> is \<^verbatim>\<open>undefined\<close> and \<^verbatim>\<open>Object.keys\<close> raises a
  TypeError. The variable \<^verbatim>\<open>type\<close> starts undefined and is assigned before it is read,
  every type count array having five counts; it starts as the empty text here.
\<close>

definition inferProperties ::
  "('n, 'd) runtime \<Rightarrow> row_object list \<Rightarrow> js_error + (string list \<times> property list)" where
  "inferProperties rt data =
     (case data of
        [] \<Rightarrow> Inl TypeError
      | row # _ \<Rightarrow>
          (let keys = map fst row;
               typeCountArray = replicate (length keys) [0, 0, 0, 0, 0]
           in case countRows rt data typeCountArray of
                Inl e \<Rightarrow> Inl e
              | Inr typeCountArray' \<Rightarrow> Inr (keys, pushProperties keys 0 typeCountArray' [])))"

text \<open>
  \<^verbatim>\<open>path.basename(path, ext)\<close> of Node for POSIX paths: the last component of the path,
  trailing slashes ignored, without the suffix \<open>ext\<close> when the component ends with it and
  is more than it. Two cases of Node's loop fall outside this rule when \<open>ext\<close> is not
  empty and not longer than the path: a path that is \<open>ext\<close> itself gives the empty
  text, and a path of slashes only is returned as it is.
\<close>

definition basename :: "string \<Rightarrow> string \<Rightarrow> string" where
  "basename path ext =
     (if ext \<noteq> [] \<and> path = ext then []
      else if ext \<noteq> [] \<and> length ext \<le> length path \<and>
              list_all (\<lambda>c. c = CHR ''/'') path then path
      else
        (let p = rev (dropWhile (\<lambda>c. c = CHR ''/'') (rev path));
             base = rev (takeWhile (\<lambda>c. c \<noteq> CHR ''/'') (rev p))
         in if ext \<noteq> [] \<and> suffix ext base \<and> base \<noteq> ext
            then take (length base - length ext) base else base))"

text \<open>Lines 308 to 312: the schema of one file; \<^verbatim>\<open>filepath.split('.')[0]\<close> is the path
  up to its first dot.\<close>

definition fileSchema :: "string \<Rightarrow> property list \<Rightarrow> string list schema" where
  "fileSchema filepath props =
     \<lparr>name = basename (takeWhile (\<lambda>c. c \<noteq> CHR ''.'') filepath) ''.csv'',
      settings = [filepath],
      properties = props\<rparr>"

definition getPropertyNames :: "property list \<Rightarrow> string list" where
  "getPropertyNames props = map pname props"

definition getPropertyTypes :: "property list \<Rightarrow> string list" where
  "getPropertyTypes props = map ptype props"

text \<open>\<^verbatim>\<open>areEqualArray\<close> compares the JSON texts of two arrays; on arrays of strings the
  texts are equal exactly when the arrays are.\<close>

definition areEqualArray :: "string list \<Rightarrow> string list \<Rightarrow> bool" where
  "areEqualArray a b = (a = b)"

text \<open>
  \<^verbatim>\<open>checkKnownSchemas\<close>, with the global \<^verbatim>\<open>knownSchemas\<close> passed in and returned: the
  first known schema with the same header gives its name and properties to the schema;
  with none, the schema is appended to the known ones.
\<close>

fun findKnownSchema :: "'s schema list \<Rightarrow> string list \<Rightarrow> 's schema option" where
  "findKnownSchema [] header = None"
| "findKnownSchema (k # knownSchemas) header =
     (if length (properties k) = length header \<and>
         areEqualArray (getPropertyNames (properties k)) header
      then Some k else findKnownSchema knownSchemas header)"

definition checkKnownSchemas ::
  "'s schema list \<Rightarrow> 's schema \<Rightarrow> string list \<Rightarrow> 's schema \<times> 's schema list" where
  "checkKnownSchemas knownSchemas schema header =
     (case findKnownSchema knownSchemas header of
        Some k \<Rightarrow> (schema\<lparr>name := name k, properties := properties k\<rparr>, knownSchemas)
      | None \<Rightarrow> (schema, knownSchemas @ [schema]))"

definition getSchema ::
  "('n, 'd) runtime \<Rightarrow> string list schema list \<Rightarrow> string \<Rightarrow> row_object list \<Rightarrow>
   js_error + (string list schema \<times> string list schema list)" where
  "getSchema rt knownSchemas filepath data =
     (case inferProperties rt data of
        Inl e \<Rightarrow> Inl e
      | Inr (keys, props) \<Rightarrow>
          Inr (checkKnownSchemas knownSchemas (fileSchema filepath props) keys))"

text \<open>
  \<^verbatim>\<open>getSchema\<close> of \<^verbatim>\<open>src/plugin/node/utils.js\<close>: the type of a column is the type of its
  value in the first row. \<^verbatim>\<open>Object.values(row)\<close> has one value per key.
\<close>

definition inferProperties_strict ::
  "('n, 'd) runtime \<Rightarrow> row_object list \<Rightarrow> js_error + (string list \<times> property list)" where
  "inferProperties_strict rt data =
     (case data of
        [] \<Rightarrow> Inl TypeError
      | row # _ \<Rightarrow>
          Inr (map fst row, map (\<lambda>(k, v). \<lparr>pname = k, ptype = getType_strict rt v\<rparr>) row))"

definition getSchema_strict ::
  "('n, 'd) runtime \<Rightarrow> string list schema list \<Rightarrow> string \<Rightarrow> row_object list \<Rightarrow>
   js_error + (string list schema \<times> string list schema list)" where
  "getSchema_strict rt knownSchemas filepath data =
     (case inferProperties_strict rt data of
        Inl e \<Rightarrow> Inl e
      | Inr (keys, props) \<Rightarrow>
          Inr (checkKnownSchemas knownSchemas (fileSchema filepath props) keys))"

section \<open>Publishing: \<^verbatim>\<open>checkValidTypes\<close>, \<^verbatim>\<open>publishFile\<close> and \<^verbatim>\<open>Publish\<close>\<close>

record validCheck =
  vc_error :: "string option"
  vc_index :: "nat option"
  vc_invalid :: bool

text \<open>
  \<^verbatim>\<open>checkValidTypes(properties, types)\<close>: \<open>properties\<close> are the cells of a row, \<open>types\<close>
  the properties of the schema. The loop walks both by the same index \<open>i\<close> and returns
  at the first cell whose type is not the declared one. With more cells than types,
  \<^verbatim>\<open>types[i]\<close> is \<^verbatim>\<open>undefined\<close> and reading its \<^verbatim>\<open>type\<close> raises a TypeError.
\<close>

fun checkValidTypes_loop ::
  "('n, 'd) runtime \<Rightarrow> nat \<Rightarrow> string list \<Rightarrow> property list \<Rightarrow> js_error + validCheck" where
  "checkValidTypes_loop rt i [] types =
     Inr \<lparr>vc_error = None, vc_index = None, vc_invalid = False\<rparr>"
| "checkValidTypes_loop rt i (p # props) [] = Inl TypeError"
| "checkValidTypes_loop rt i (p # props) (t # types) =
     (let type = getType rt p
      in if type \<noteq> ptype t then
           Inr \<lparr>vc_error = Some (''Expected type: '' @ ptype t @ '' but got type: '' @ type),
                vc_index = Some i,
                vc_invalid = True\<rparr>
         else checkValidTypes_loop rt (Suc i) props types)"

definition checkValidTypes ::
  "('n, 'd) runtime \<Rightarrow> string list \<Rightarrow> property list \<Rightarrow> js_error + validCheck" where
  "checkValidTypes rt props types = checkValidTypes_loop rt 0 props types"

text \<open>
  A record written to the stream. The field \<^verbatim>\<open>data\<close> is the row array as it is handed to
  \<^verbatim>\<open>JSON.stringify\<close>.
\<close>

record ('n, 'd) publishRecord =
  invalid :: bool
  error :: "string option"
  data :: "('n, 'd) jsvalue list"

text \<open>
  Lines 342 to 346: every cell but the one at \<^verbatim>\<open>validCheck.index\<close> is replaced by its
  conversion under the declared type of its column; the cell at that index stays the
  text it was. The caller has checked that there are as many types as cells.
\<close>

definition convertRow ::
  "('n, 'd) runtime \<Rightarrow> string list \<Rightarrow> string list \<Rightarrow> nat option \<Rightarrow> ('n, 'd) jsvalue list" where
  "convertRow rt row types index =
     map (\<lambda>j. if Some j \<noteq> index then convertToType rt (row ! j) (types ! j)
              else JSString (row ! j)) [0..<length row]"

text \<open>
  One turn of the loop of \<^verbatim>\<open>publishFile\<close> (lines 337 to 363): the records it writes
  for a row, none when the row has not as many cells as the schema has properties.
\<close>

definition publishRow ::
  "('n, 'd) runtime \<Rightarrow> 's schema \<Rightarrow> string list \<Rightarrow> js_error + ('n, 'd) publishRecord list" where
  "publishRow rt schema row =
     (let types = getPropertyTypes (properties schema)
      in if length row = length types then
           (case checkValidTypes rt row (properties schema) of
              Inl e \<Rightarrow> Inl e
            | Inr validCheck \<Rightarrow>
                (let row' = convertRow rt row types (vc_index validCheck)
                 in if vc_invalid validCheck then
                      Inr [\<lparr>invalid = True,
                            error = vc_error validCheck,
                            data = (case vc_index validCheck of
                                      None \<Rightarrow> row'
                                    | Some i \<Rightarrow> row'[i := JSNull])\<rparr>]
                    else
                      Inr [\<lparr>invalid = False, error = None, data = row'\<rparr>]))
         else Inr [])"

text \<open>
  The callback of \<^verbatim>\<open>publishFile\<close> on the rows of one file (the CSV reader, with
  \<^verbatim>\<open>output: 'csv'\<close>, gives each data row as the array of its cells): the records it
  writes, in the order it writes them, and the error that ended it, if any.
\<close>

fun publishFile ::
  "('n, 'd) runtime \<Rightarrow> 's schema \<Rightarrow> string list list \<Rightarrow>
   ('n, 'd) publishRecord list \<times> js_error option" where
  "publishFile rt schema [] = ([], None)"
| "publishFile rt schema (row # rows) =
     (case publishRow rt schema row of
        Inl e \<Rightarrow> ([], Some e)
      | Inr recs \<Rightarrow>
          (let (written, e) = publishFile rt schema rows in (recs @ written, e)))"

text \<open>\<^verbatim>\<open>s.split(',')\<close>.\<close>

fun split_comma :: "string \<Rightarrow> string list" where
  "split_comma [] = [[]]"
| "split_comma (c # cs) =
     (if c = CHR '','' then [] # split_comma cs
      else (case split_comma cs of
              [] \<Rightarrow> [[c]]
            | w # ws \<Rightarrow> (c # w) # ws))"

text \<open>
  \<^verbatim>\<open>Publish\<close> (\<^verbatim>\<open>plugin.js\<close>) calls \<^verbatim>\<open>publishFile\<close> on every file of the settings, one
  after the other, and each call only starts the read of its file: the callback that
  writes the records of a file runs when the read of that file is done, and runs to its
  end without interruption. So the stream holds the records of the files in the order
  in which their reads end. That order is not fixed by the program; it is the argument
  \<open>order\<close>, a list of the indices of the files. The files are the argument \<open>fs\<close>: the
  rows of the file at a path, or nothing when the file cannot be read, in which case
  nothing is written for it.
\<close>

fun Publish_settle ::
  "('n, 'd) runtime \<Rightarrow> (string \<Rightarrow> string list list option) \<Rightarrow> string schema \<Rightarrow>
   string list \<Rightarrow> nat list \<Rightarrow> ('n, 'd) publishRecord list \<Rightarrow> ('n, 'd) publishRecord list" where
  "Publish_settle rt fs schema files [] stream = stream"
| "Publish_settle rt fs schema files (k # order) stream =
     (case fs (files ! k) of
        None \<Rightarrow> Publish_settle rt fs schema files order stream
      | Some rows \<Rightarrow>
          Publish_settle rt fs schema files order
            (stream @ fst (publishFile rt schema rows)))"

definition Publish ::
  "('n, 'd) runtime \<Rightarrow> (string \<Rightarrow> string list list option) \<Rightarrow> nat list \<Rightarrow> string schema \<Rightarrow>
   ('n, 'd) publishRecord list" where
  "Publish rt fs order schema =
     Publish_settle rt fs schema (split_comma (settings schema)) order []"

section \<open>The host: the handshake of \<^verbatim>\<open>host.go\<close>\<close>

text \<open>
  \<^verbatim>\<open>strconv.Atoi\<close> of Go on a 64-bit platform: an optional sign, then one decimal digit
  or more, of a value that fits an \<^verbatim>\<open>int\<close>; anything else is an error.
\<close>

definition decimalValue :: "string \<Rightarrow> int" where
  "decimalValue ds = foldl (\<lambda>n c. 10 * n + (of_char c - 48)) 0 ds"

definition Atoi :: "string \<Rightarrow> int option" where
  "Atoi s =
     (let digits = (case s of [] \<Rightarrow> [] | c # r \<Rightarrow> if c \<in> set ''+-'' then r else s)
      in if \<not> DecimalDigits digits then None
         else (let n = (if take 1 s = ''-'' then - decimalValue digits
                        else decimalValue digits)
               in if - (2 ^ 63) \<le> n \<and> n < 2 ^ 63 then Some n else None))"

text \<open>
  How the host process ends its start-up: \<open>Fatal\<close> is \<^verbatim>\<open>log.Fatalf\<close> (the message, then
  exit code 1), \<open>OsExit c\<close> is \<^verbatim>\<open>os.Exit(c)\<close>, \<open>RunTests port\<close> is the call of
  \<^verbatim>\<open>runTests\<close> on the port that was read.
\<close>

datatype host_outcome = Fatal | OsExit int | RunTests int

text \<open>
  \<^verbatim>\<open>monitorStdout\<close> up to the send on \<^verbatim>\<open>portCh\<close>. Its argument is \<^verbatim>\<open>scanner.Text()\<close>
  after the first \<^verbatim>\<open>scanner.Scan()\<close>: the first line of the output of the plugin, or
  the empty text when the output ended before any line.
\<close>

definition monitorStdout :: "string \<Rightarrow> host_outcome + int" where
  "monitorStdout text =
     (case Atoi text of
        None \<Rightarrow> Inl Fatal
      | Some port \<Rightarrow> Inr port)"

text \<open>
  What \<^verbatim>\<open>cmd.Wait()\<close> returned: no error, an \<^verbatim>\<open>*exec.ExitError\<close> with its exit status,
  or another error.
\<close>

datatype wait_result = WaitNil | WaitExitError int | WaitOtherError

definition monitorExit :: "wait_result \<Rightarrow> host_outcome + int" where
  "monitorExit w =
     (case w of
        WaitExitError status \<Rightarrow> Inr status
      | _ \<Rightarrow> Inl Fatal)"

text \<open>
  The \<^verbatim>\<open>select\<close> of \<^verbatim>\<open>main\<close> waits for the first of three things: the timer of 5 seconds,
  the end of the plugin process, the first line of its output. Which comes first is the
  argument.
\<close>

datatype startup_event = TimeoutElapsed | PluginExited wait_result | FirstLine string

definition main :: "startup_event \<Rightarrow> host_outcome" where
  "main ev =
     (case ev of
        TimeoutElapsed \<Rightarrow> Fatal
      | PluginExited w \<Rightarrow>
          (case monitorExit w of
             Inl out \<Rightarrow> out
           | Inr exitCode \<Rightarrow> if exitCode \<noteq> 0 then Fatal else OsExit exitCode)
      | FirstLine text \<Rightarrow>
          (case monitorStdout text of
             Inl out \<Rightarrow> out
           | Inr port \<Rightarrow> RunTests port))"

section \<open>Notions of the specification\<close>

text \<open>The five types, in the order of priority of the specification.\<close>

definition typePriority :: "string list" where
  "typePriority = [''integer'', ''number'', ''boolean'', ''datetime'', ''string'']"

text \<open>The values of column \<open>j\<close> of a file: the value at \<open>j\<close> of every row that has one.\<close>

definition columnValues :: "nat \<Rightarrow> row_object list \<Rightarrow> string list" where
  "columnValues j rows = map (\<lambda>row. snd (row ! j)) (filter (\<lambda>row. j < length row) rows)"

text \<open>The tally of a type over values: how many of them \<^verbatim>\<open>getType\<close> gives that type.\<close>

definition tally :: "('n, 'd) runtime \<Rightarrow> string \<Rightarrow> string list \<Rightarrow> nat" where
  "tally rt t vs = length (filter (\<lambda>v. getType rt v = t) vs)"

text \<open>A row of a file is well formed for a schema when it has one cell per property.\<close>

definition wellFormedRow :: "'s schema \<Rightarrow> string list \<Rightarrow> bool" where
  "wellFormedRow schema row = (length row = length (properties schema))"

text \<open>The records that \<^verbatim>\<open>publishFile\<close> writes for one row, and for the file at a path.\<close>

definition rowRecords ::
  "('n, 'd) runtime \<Rightarrow> 's schema \<Rightarrow> string list \<Rightarrow> ('n, 'd) publishRecord list" where
  "rowRecords rt schema row = (case publishRow rt schema row of Inl e \<Rightarrow> [] | Inr recs \<Rightarrow> recs)"

definition fileRecords ::
  "('n, 'd) runtime \<Rightarrow> (string \<Rightarrow> string list list option) \<Rightarrow> 's schema \<Rightarrow> string \<Rightarrow>
   ('n, 'd) publishRecord list" where
  "fileRecords rt fs schema f =
     (case fs f of None \<Rightarrow> [] | Some rows \<Rightarrow> fst (publishFile rt schema rows))"

section \<open>A runtime and files for examples\<close>

text \<open>
  A runtime to run the definitions on examples: its \<^verbatim>\<open>Date.parse\<close> reads dates of the
  form \<^verbatim>\<open>YYYY-MM-DD\<close> and nothing else, and its numbers and dates are the texts they are
  read from.
\<close>

definition isoDateForm :: "string \<Rightarrow> bool" where
  "isoDateForm s =
     (length s = 10 \<and> DecimalDigits (take 4 s) \<and> take 1 (drop 4 s) = ''-'' \<and>
      DecimalDigits (take 2 (drop 5 s)) \<and> take 1 (drop 7 s) = ''-'' \<and>
      DecimalDigits (drop 8 s))"

definition exampleRuntime :: "(string, string) runtime" where
  "exampleRuntime =
     \<lparr>Date_parse_isNaN = (\<lambda>s. \<not> isoDateForm s),
      parseInt = (\<lambda>s. s),
      parseFloat = (\<lambda>s. s),
      Date_setUTCHours0 = (\<lambda>s. s)\<rparr>"

text \<open>
  A schema with the properties of \<^verbatim>\<open>schemaAnimals\<close> of \<^verbatim>\<open>host.go\<close> and two files in its
  settings, and the rows of these files.
\<close>

definition exampleSchema :: "string schema" where
  "exampleSchema =
     \<lparr>name = ''animals'',
      settings = ''/data/animals.1.csv,/data/animals.2.csv'',
      properties =
        [\<lparr>pname = ''id'', ptype = ''integer''\<rparr>,
         \<lparr>pname = ''name'', ptype = ''string''\<rparr>,
         \<lparr>pname = ''extinct'', ptype = ''boolean''\<rparr>,
         \<lparr>pname = ''last spotted'', ptype = ''datetime''\<rparr>]\<rparr>"

definition exampleFiles :: "string \<Rightarrow> string list list option" where
  "exampleFiles =
     [''/data/animals.1.csv'' \<mapsto>
        [[''52'', ''Macropus fuliginosus'', ''blue'', ''1796-07-23''],
         [''53'', ''Ciconia ciconia'']],
      ''/data/animals.2.csv'' \<mapsto>
        [[''7'', ''Vulpes chama'', ''false'', ''2001-02-03'']]]"

section \<open>Type inference\<close>









lemma getType_five: "getType rt s \<in> set typePriority"
  by (simp add: getType_def typePriority_def)

lemma getType_strict_five: "getType_strict rt s \<in> set typePriority"
  by (simp add: getType_strict_def typePriority_def)

lemma Number_isNaN_examples:
  "\<not> Number_isNaN ''5''" "\<not> Number_isNaN ''5.0''" "Number_isNaN ''true''"
  "Number_isNaN ''false''" "Number_isNaN ''t''" "Number_isNaN ''f''"
  "Number_isNaN ''1796-07-23''" "Number_isNaN ''blue''"
  by code_simp+

text \<open>
  C1. \<^verbatim>\<open>getType\<close> gives every text exactly one of the five types, the first that matches
  in this order: integer when the text passes the numeric test and holds no dot, number
  when it passes the numeric test, boolean when its lower case is one of the tokens
  (\<^verbatim>\<open>true\<close>, \<^verbatim>\<open>false\<close>, and \<^verbatim>\<open>t\<close>, \<^verbatim>\<open>f\<close> in the permissive version), datetime when
  \<^verbatim>\<open>Date.parse\<close> reads it, string otherwise. So \<^verbatim>\<open>5\<close> is an integer, \<^verbatim>\<open>5.0\<close> a number,
  \<^verbatim>\<open>true\<close> and \<^verbatim>\<open>false\<close> are booleans, a date that \<^verbatim>\<open>Date.parse\<close> reads is a datetime, and
  a word is a string.
\<close>

theorem getType_first_match:
  "getType rt s =
     (if \<not> Number_isNaN s \<and> CHR ''.'' \<notin> set s then ''integer''
      else if \<not> Number_isNaN s then ''number''
      else if toLowerCase s \<in> {''true'', ''false'', ''t'', ''f''} then ''boolean''
      else if \<not> Date_parse_isNaN rt s then ''datetime''
      else ''string'') \<and>
   getType_strict rt s =
     (if \<not> Number_isNaN s \<and> CHR ''.'' \<notin> set s then ''integer''
      else if \<not> Number_isNaN s then ''number''
      else if toLowerCase s \<in> {''true'', ''false''} then ''boolean''
      else if \<not> Date_parse_isNaN rt s then ''datetime''
      else ''string'') \<and>
   getType rt s \<in> set typePriority \<and> getType_strict rt s \<in> set typePriority \<and>
   distinct typePriority \<and>
   getType rt ''5'' = ''integer'' \<and> getType_strict rt ''5'' = ''integer'' \<and>
   getType rt ''5.0'' = ''number'' \<and> getType_strict rt ''5.0'' = ''number'' \<and>
   getType rt ''true'' = ''boolean'' \<and> getType_strict rt ''true'' = ''boolean'' \<and>
   getType rt ''false'' = ''boolean'' \<and> getType_strict rt ''false'' = ''boolean'' \<and>
   getType rt ''t'' = ''boolean'' \<and> getType rt ''f'' = ''boolean'' \<and>
   getType rt ''1796-07-23'' =
     (if Date_parse_isNaN rt ''1796-07-23'' then ''string'' else ''datetime'') \<and>
   getType_strict rt ''1796-07-23'' =
     (if Date_parse_isNaN rt ''1796-07-23'' then ''string'' else ''datetime'') \<and>
   getType rt ''blue'' = (if Date_parse_isNaN rt ''blue'' then ''string'' else ''datetime'') \<and>
   getType_strict rt ''blue'' =
     (if Date_parse_isNaN rt ''blue'' then ''string'' else ''datetime'')"
proof -
  have general: "getType rt s =
     (if \<not> Number_isNaN s \<and> CHR ''.'' \<notin> set s then ''integer''
      else if \<not> Number_isNaN s then ''number''
      else if toLowerCase s \<in> {''true'', ''false'', ''t'', ''f''} then ''boolean''
      else if \<not> Date_parse_isNaN rt s then ''datetime''
      else ''string'')"
    by (simp add: getType_def)
  have general_strict: "getType_strict rt s =
     (if \<not> Number_isNaN s \<and> CHR ''.'' \<notin> set s then ''integer''
      else if \<not> Number_isNaN s then ''number''
      else if toLowerCase s \<in> {''true'', ''false''} then ''boolean''
      else if \<not> Date_parse_isNaN rt s then ''datetime''
      else ''string'')"
    by (simp add: getType_strict_def)
  have d: "distinct typePriority" by (simp add: typePriority_def)
  have ex: "getType rt ''5'' = ''integer''" "getType_strict rt ''5'' = ''integer''"
    "getType rt ''5.0'' = ''number''" "getType_strict rt ''5.0'' = ''number''"
    "getType rt ''true'' = ''boolean''" "getType_strict rt ''true'' = ''boolean''"
    "getType rt ''false'' = ''boolean''" "getType_strict rt ''false'' = ''boolean''"
    "getType rt ''t'' = ''boolean''" "getType rt ''f'' = ''boolean''"
    by (simp_all add: getType_def getType_strict_def Number_isNaN_examples toLowerCase_def)
  have dates: "getType rt ''1796-07-23'' =
       (if Date_parse_isNaN rt ''1796-07-23'' then ''string'' else ''datetime'')"
    "getType_strict rt ''1796-07-23'' =
       (if Date_parse_isNaN rt ''1796-07-23'' then ''string'' else ''datetime'')"
    "getType rt ''blue'' = (if Date_parse_isNaN rt ''blue'' then ''string'' else ''datetime'')"
    "getType_strict rt ''blue'' =
       (if Date_parse_isNaN rt ''blue'' then ''string'' else ''datetime'')"
    by (simp_all add: getType_def getType_strict_def Number_isNaN_examples toLowerCase_def)
  show ?thesis
    using general general_strict getType_five getType_strict_five d ex dates by blast
qed

theorem getType_first_match_witness:
  "getType exampleRuntime ''1796-07-23'' = ''datetime'' \<and>
   getType exampleRuntime ''blue'' = ''string'' \<and>
   getType_strict exampleRuntime ''f'' = ''string''"
proof -
  have iso: "isoDateForm ''1796-07-23''" "\<not> isoDateForm ''blue''" "\<not> isoDateForm ''f''"
    by code_simp+
  have nan: "Number_isNaN ''f''" by code_simp
  have "getType_strict exampleRuntime ''f'' = ''string''"
    using getType_first_match [of exampleRuntime "''f''"] nan iso
    by (simp add: exampleRuntime_def toLowerCase_def)
  then show ?thesis
    using getType_first_match [of exampleRuntime "''f''"] iso
    by (simp add: exampleRuntime_def)
qed

text \<open>
  C9. Under the declared type boolean, \<^verbatim>\<open>convertToType\<close> gives the truth value of the
  test that the lower case of the text is one of the boolean tokens, not the value the
  text denotes: \<^verbatim>\<open>true\<close> gives true, \<^verbatim>\<open>false\<close> gives true as well (and so does \<^verbatim>\<open>f\<close> in
  the permissive version), and a text that is no token gives false.
\<close>

theorem convertToType_boolean_is_membership:
  "convertToType rt s ''boolean'' =
     JSBoolean (toLowerCase s \<in> {''true'', ''false'', ''t'', ''f''}) \<and>
   convertToType_strict rt s ''boolean'' =
     JSBoolean (toLowerCase s \<in> {''true'', ''false''}) \<and>
   convertToType rt ''true'' ''boolean'' = JSBoolean True \<and>
   convertToType rt ''false'' ''boolean'' = JSBoolean True \<and>
   convertToType rt ''f'' ''boolean'' = JSBoolean True \<and>
   convertToType rt ''blue'' ''boolean'' = JSBoolean False \<and>
   convertToType_strict rt ''true'' ''boolean'' = JSBoolean True \<and>
   convertToType_strict rt ''false'' ''boolean'' = JSBoolean True \<and>
   convertToType_strict rt ''f'' ''boolean'' = JSBoolean False \<and>
   convertToType_strict rt ''blue'' ''boolean'' = JSBoolean False"
  by (simp add: convertToType_def convertToType_strict_def toLowerCase_def)

theorem convertToType_boolean_is_membership_witness:
  "convertToType exampleRuntime ''FALSE'' ''boolean'' = JSBoolean True \<and>
   convertToType_strict exampleRuntime ''False'' ''boolean'' = JSBoolean True \<and>
   convertToType exampleRuntime ''no'' ''boolean'' = JSBoolean False"
proof -
  have lower: "toLowerCase ''FALSE'' = ''false''" "toLowerCase ''False'' = ''false''"
    "toLowerCase ''no'' = ''no''"
    by (simp_all add: toLowerCase_def)
  show ?thesis
    using convertToType_boolean_is_membership [of exampleRuntime "''FALSE''"]
      convertToType_boolean_is_membership [of exampleRuntime "''False''"]
      convertToType_boolean_is_membership [of exampleRuntime "''no''"] lower
    by simp
qed



section \<open>Schema discovery\<close>

text \<open>
  With no data row, both versions of \<^verbatim>\<open>getSchema\<close> end in the TypeError of
  \<^verbatim>\<open>Object.keys(data[0])\<close>, whatever the path and the known schemas.
\<close>

lemma getSchema_without_rows:
  "inferProperties rt [] = Inl TypeError \<and>
   getSchema rt knownSchemas filepath [] = Inl TypeError \<and>
   inferProperties_strict rt [] = Inl TypeError \<and>
   getSchema_strict rt knownSchemas filepath [] = Inl TypeError"
  by (simp add: inferProperties_def getSchema_def inferProperties_strict_def
      getSchema_strict_def)

text \<open>
  C6. A file with a header row and no data row is to give a schema with one column of
  type string per header field. For such a file the CSV reader passes no row to
  \<^verbatim>\<open>getSchema\<close>, and the code reads the keys of the first row without a test that
  there is one: on the file \<^verbatim>\<open>/data/empty.csv\<close> both versions end in a TypeError and
  give no schema.
\<close>

theorem getSchema_header_only_file:
  "getSchema exampleRuntime [] ''/data/empty.csv'' [] = Inl TypeError \<and>
   getSchema_strict exampleRuntime [] ''/data/empty.csv'' [] = Inl TypeError"
  by (simp add: inferProperties_def getSchema_def inferProperties_strict_def
      getSchema_strict_def)

text \<open>
  The name that \<^verbatim>\<open>getSchema\<close> gives a schema, for a path with no dot in the directory: the
  name of the file up to its first dot.
\<close>

lemma basename_last_component:
  assumes "stem \<noteq> []" and "CHR ''/'' \<notin> set stem" and "CHR ''.'' \<notin> set stem"
  shows "basename (dir @ CHR ''/'' # stem) ''.csv'' = stem"
proof -
  have rv: "rev (dir @ CHR ''/'' # stem) = rev stem @ CHR ''/'' # rev dir" by simp
  from assms(1) obtain c cs where cs: "rev stem = c # cs" by (cases "rev stem") auto
  then have "c \<in> set stem" by (metis list.set_intros(1) set_rev)
  with assms(2) have c: "c \<noteq> CHR ''/''" by auto
  have keep: "dropWhile (\<lambda>c. c = CHR ''/'') (rev stem @ CHR ''/'' # rev dir) =
      rev stem @ CHR ''/'' # rev dir"
    using cs c by simp
  have "\<And>x. x \<in> set (rev stem) \<Longrightarrow> x \<noteq> CHR ''/''" using assms(2) by auto
  then have "takeWhile (\<lambda>c. c \<noteq> CHR ''/'') (rev stem @ CHR ''/'' # rev dir) =
      rev stem @ takeWhile (\<lambda>c. c \<noteq> CHR ''/'') (CHR ''/'' # rev dir)"
    by (rule takeWhile_append2)
  then have base: "takeWhile (\<lambda>c. c \<noteq> CHR ''/'') (rev stem @ CHR ''/'' # rev dir) = rev stem"
    by simp
  have nosuffix: "\<not> suffix ''.csv'' stem"
  proof
    assume "suffix ''.csv'' stem"
    then have "set ''.csv'' \<subseteq> set stem" by (rule set_mono_suffix)
    with assms(3) show False by simp
  qed
  have "CHR ''/'' \<in> set (dir @ CHR ''/'' # stem)" by simp
  moreover have "CHR ''/'' \<notin> set ''.csv''" by simp
  ultimately have noext: "dir @ CHR ''/'' # stem \<noteq> ''.csv''" by metis
  have noslashes: "\<not> list_all (\<lambda>c. c = CHR ''/'') (dir @ CHR ''/'' # stem)"
    using \<open>c \<in> set stem\<close> c by (auto simp: list_all_iff)
  have "basename (dir @ CHR ''/'' # stem) ''.csv'' =
      (let p = rev (dropWhile (\<lambda>c. c = CHR ''/'') (rev (dir @ CHR ''/'' # stem)));
           base = rev (takeWhile (\<lambda>c. c \<noteq> CHR ''/'') (rev p))
       in if ''.csv'' \<noteq> [] \<and> suffix ''.csv'' base \<and> base \<noteq> ''.csv''
          then take (length base - length ''.csv'') base else base)"
    unfolding basename_def using noext noslashes by (simp only: if_False simp_thms)
  also have "\<dots> = stem"
    using nosuffix by (simp add: Let_def keep base del: suffix_Cons)
  finally show ?thesis .
qed

lemma fileSchema_name_plain_directory:
  assumes "CHR ''.'' \<notin> set dir" and "CHR ''/'' \<notin> set file"
    and "takeWhile (\<lambda>c. c \<noteq> CHR ''.'') file \<noteq> []"
  shows "name (fileSchema (dir @ CHR ''/'' # file) props) =
    takeWhile (\<lambda>c. c \<noteq> CHR ''.'') file"
proof -
  let ?stem = "takeWhile (\<lambda>c. c \<noteq> CHR ''.'') file"
  have "\<And>x. x \<in> set dir \<Longrightarrow> x \<noteq> CHR ''.''" using assms(1) by auto
  then have "takeWhile (\<lambda>c. c \<noteq> CHR ''.'') (dir @ CHR ''/'' # file) =
      dir @ takeWhile (\<lambda>c. c \<noteq> CHR ''.'') (CHR ''/'' # file)"
    by (rule takeWhile_append2)
  then have cut: "takeWhile (\<lambda>c. c \<noteq> CHR ''.'') (dir @ CHR ''/'' # file) =
      dir @ CHR ''/'' # ?stem"
    by simp
  have slash: "CHR ''/'' \<notin> set ?stem" using assms(2) by (auto dest: set_takeWhileD)
  have dot: "CHR ''.'' \<notin> set ?stem" by (auto dest: set_takeWhileD)
  show ?thesis
    unfolding fileSchema_def cut using basename_last_component [OF assms(3) slash dot]
    by simp
qed

text \<open>
  C8. The name of the schema of a file is meant to be the name of the file without
  directory and extension. \<^verbatim>\<open>getSchema\<close> cuts the whole path at its first dot before it
  takes the last component, so a dot in a directory name gives a piece of that
  directory name: for \<^verbatim>\<open>animals.csv\<close> under \<^verbatim>\<open>/go/src/github.com/...\<close> the name is
  \<^verbatim>\<open>github\<close>, where the name of the file without directory and extension is
  \<^verbatim>\<open>animals\<close>. Properties and settings are the inferred columns and the list of that
  one file.
\<close>

theorem getSchema_name_dot_in_directory:
  "getSchema exampleRuntime []
     ''/go/src/github.com/naveego/code-challenge-plugin/data/animals.csv''
     [[(''id'', ''1''), (''name'', ''Vulpes chama'')]] =
     Inr (\<lparr>name = ''github'',
           settings = [''/go/src/github.com/naveego/code-challenge-plugin/data/animals.csv''],
           properties = [\<lparr>pname = ''id'', ptype = ''integer''\<rparr>,
                         \<lparr>pname = ''name'', ptype = ''string''\<rparr>]\<rparr>,
          [\<lparr>name = ''github'',
            settings = [''/go/src/github.com/naveego/code-challenge-plugin/data/animals.csv''],
            properties = [\<lparr>pname = ''id'', ptype = ''integer''\<rparr>,
                          \<lparr>pname = ''name'', ptype = ''string''\<rparr>]\<rparr>]) \<and>
   name (fileSchema ''/go/src/github.com/naveego/code-challenge-plugin/data/animals.csv'' []) =
     ''github'' \<and>
   basename ''/go/src/github.com/naveego/code-challenge-plugin/data/animals.csv'' ''.csv'' =
     ''animals''"
  by code_simp

section \<open>The handshake\<close>

lemma main_RunTests_iff:
  "main ev = RunTests port \<longleftrightarrow> (\<exists>text. ev = FirstLine text \<and> Atoi text = Some port)"
  by (cases ev)
    (auto simp: main_def monitorStdout_def monitorExit_def
      split: option.splits wait_result.splits)

lemma Atoi_digits:
  assumes "DecimalDigits ds" "decimalValue ds < 2 ^ 63"
  shows "Atoi ds = Some (decimalValue ds)" "Atoi (CHR ''-'' # ds) = Some (- decimalValue ds)"
proof -
  from assms(1) obtain c r where ds: "ds = c # r" and c: "DecimalDigit c"
    by (cases ds) (auto simp: DecimalDigits_def)
  have nosign: "c \<notin> set ''+-''" using c by (auto simp: DecimalDigit_def)
  have nonneg: "0 \<le> foldl (\<lambda>n c. 10 * n + (of_char c - 48)) a xs"
    if "list_all DecimalDigit xs" "0 \<le> a" for xs and a :: int
    using that
  proof (induction xs arbitrary: a)
    case Nil
    then show ?case by simp
  next
    case (Cons x xs)
    have "48 \<le> (of_char x :: int)" using Cons.prems(1) by (auto simp: DecimalDigit_def)
    with Cons show ?case by simp
  qed
  have "0 \<le> decimalValue ds"
    using assms(1) nonneg [of ds 0] by (simp add: decimalValue_def DecimalDigits_def)
  with assms show "Atoi ds = Some (decimalValue ds)"
    using nosign by (simp add: Atoi_def ds)
  from \<open>0 \<le> decimalValue ds\<close> assms show "Atoi (CHR ''-'' # ds) = Some (- decimalValue ds)"
    by (simp add: Atoi_def)
qed

text \<open>
  C7, amended. The host accepts the handshake, and calls \<^verbatim>\<open>runTests\<close> on the port,
  exactly when the first of the three events is the first line of the output of the
  plugin and \<^verbatim>\<open>strconv.Atoi\<close> reads that line as an integer: an optional sign and decimal
  digits. The integer need not be positive: a line of digits is accepted with its value
  and with a minus sign before it with the negated value. When the timer comes first,
  when the line is not an integer, and when the plugin process ends first (without
  error, with another error, or with a non-zero exit status) the host ends with a fatal
  error.
\<close>

theorem handshake_accepts_integer_line:
  "(main ev = RunTests port \<longleftrightarrow> (\<exists>text. ev = FirstLine text \<and> Atoi text = Some port)) \<and>
   (DecimalDigits ds \<and> decimalValue ds < 2 ^ 63 \<longrightarrow>
      main (FirstLine ds) = RunTests (decimalValue ds) \<and>
      main (FirstLine (CHR ''-'' # ds)) = RunTests (- decimalValue ds)) \<and>
   main TimeoutElapsed = Fatal \<and>
   (Atoi line = None \<longrightarrow> main (FirstLine line) = Fatal) \<and>
   main (FirstLine []) = Fatal \<and>
   main (PluginExited WaitNil) = Fatal \<and>
   main (PluginExited WaitOtherError) = Fatal \<and>
   (status \<noteq> 0 \<longrightarrow> main (PluginExited (WaitExitError status)) = Fatal)"
proof -
  have digits: "DecimalDigits ds \<and> decimalValue ds < 2 ^ 63 \<longrightarrow>
      main (FirstLine ds) = RunTests (decimalValue ds) \<and>
      main (FirstLine (CHR ''-'' # ds)) = RunTests (- decimalValue ds)"
    using Atoi_digits [of ds] by (simp add: main_def monitorStdout_def)
  have empty: "main (FirstLine []) = Fatal"
    by (simp add: main_def monitorStdout_def Atoi_def DecimalDigits_def)
  have rest: "main TimeoutElapsed = Fatal"
    "Atoi line = None \<longrightarrow> main (FirstLine line) = Fatal"
    "main (PluginExited WaitNil) = Fatal"
    "main (PluginExited WaitOtherError) = Fatal"
    "status \<noteq> 0 \<longrightarrow> main (PluginExited (WaitExitError status)) = Fatal"
    by (simp_all add: main_def monitorStdout_def monitorExit_def)
  show ?thesis using main_RunTests_iff [of ev port] digits empty rest by blast
qed

theorem handshake_accepts_integer_line_witness:
  "DecimalDigits ''5000'' \<and> decimalValue ''5000'' < 2 ^ 63 \<and>
   main (FirstLine ''5000'') = RunTests 5000 \<and>
   main (FirstLine ''-5000'') = RunTests (- 5000) \<and>
   Atoi ''port 5000'' = None \<and> main (FirstLine ''port 5000'') = Fatal \<and>
   main (PluginExited (WaitExitError 2)) = Fatal"
proof -
  have d: "DecimalDigits ''5000''" by code_simp
  have v: "decimalValue ''5000'' = 5000" by code_simp
  have n: "Atoi ''port 5000'' = None" by code_simp
  show ?thesis
    using d v n
      handshake_accepts_integer_line [where ds = "''5000''" and line = "''port 5000''"
        and status = 2 and ev = "FirstLine ''5000''" and port = 5000]
    by simp
qed

text \<open>
  C7, counterexample. The lines \<^verbatim>\<open>0\<close> and \<^verbatim>\<open>-1\<close> are no positive integers, and the host
  accepts them and calls \<^verbatim>\<open>runTests\<close> on the ports 0 and -1.
\<close>

theorem handshake_accepts_integer_line_counterexample:
  "main (FirstLine ''0'') = RunTests 0 \<and> \<not> (0 :: int) < 0 \<and>
   main (FirstLine ''-1'') = RunTests (- 1) \<and> \<not> (- 1 :: int) > 0"
proof -
  have "Atoi ''0'' = Some 0" "Atoi ''-1'' = Some (- 1)" by code_simp+
  then show ?thesis by (simp add: main_def monitorStdout_def)
qed

section \<open>Publishing\<close>

lemma checkValidTypes_loop_valid:
  "length row = length types \<Longrightarrow>
   \<forall>j<length row. getType rt (row ! j) = ptype (types ! j) \<Longrightarrow>
   checkValidTypes_loop rt i row types =
     Inr \<lparr>vc_error = None, vc_index = None, vc_invalid = False\<rparr>"
proof (induction rt i row types rule: checkValidTypes_loop.induct)
  case (1 rt i types)
  then show ?case by simp
next
  case (2 rt i p props)
  then show ?case by simp
next
  case (3 rt i p props t types)
  have hd: "getType rt p = ptype t" using "3.prems"(2) by auto
  have tl: "\<forall>j<length props. getType rt (props ! j) = ptype (types ! j)"
    using "3.prems"(2) by auto
  show ?case using "3.IH" [OF refl] hd tl "3.prems"(1) by simp
qed

lemma checkValidTypes_loop_invalid:
  "length row = length types \<Longrightarrow> m < length row \<Longrightarrow>
   \<forall>j<m. getType rt (row ! j) = ptype (types ! j) \<Longrightarrow>
   getType rt (row ! m) \<noteq> ptype (types ! m) \<Longrightarrow>
   checkValidTypes_loop rt i row types =
     Inr \<lparr>vc_error = Some (''Expected type: '' @ ptype (types ! m) @ '' but got type: '' @
                          getType rt (row ! m)),
          vc_index = Some (i + m), vc_invalid = True\<rparr>"
proof (induction rt i row types arbitrary: m rule: checkValidTypes_loop.induct)
  case (1 rt i types)
  then show ?case by simp
next
  case (2 rt i p props)
  then show ?case by simp
next
  case (3 rt i p props t types)
  show ?case
  proof (cases m)
    case 0
    then show ?thesis using "3.prems" by simp
  next
    case (Suc m')
    have hd: "getType rt p = ptype t" using "3.prems"(3) Suc by auto
    have before: "\<forall>j<m'. getType rt (props ! j) = ptype (types ! j)"
      using "3.prems"(3) Suc by auto
    have at: "getType rt (props ! m') \<noteq> ptype (types ! m')"
      using "3.prems"(4) Suc by simp
    have "checkValidTypes_loop rt (Suc i) props types =
        Inr \<lparr>vc_error = Some (''Expected type: '' @ ptype (types ! m') @
                 '' but got type: '' @ getType rt (props ! m')),
             vc_index = Some (Suc i + m'), vc_invalid = True\<rparr>"
      using "3.IH" [OF refl, of m'] hd before at "3.prems"(1,2) Suc by simp
    then show ?thesis using hd Suc by simp
  qed
qed

lemma convertRow_valid:
  "length row = length props \<Longrightarrow>
   convertRow rt row (map ptype props) None =
     map (\<lambda>j. convertToType rt (row ! j) (ptype (props ! j))) [0..<length row]"
  by (simp add: convertRow_def)

lemma convertRow_invalid:
  "length row = length props \<Longrightarrow>
   (convertRow rt row (map ptype props) (Some m))[m := JSNull] =
     (map (\<lambda>j. convertToType rt (row ! j) (ptype (props ! j))) [0..<length row])[m := JSNull]"
proof (rule nth_equalityI)
  show "length ((convertRow rt row (map ptype props) (Some m))[m := JSNull]) =
      length ((map (\<lambda>j. convertToType rt (row ! j) (ptype (props ! j)))
        [0..<length row])[m := JSNull])"
    by (simp add: convertRow_def)
next
  fix i
  assume len: "length row = length props"
    and "i < length ((convertRow rt row (map ptype props) (Some m))[m := JSNull])"
  then have i: "i < length row" by (simp add: convertRow_def)
  show "(convertRow rt row (map ptype props) (Some m))[m := JSNull] ! i =
      (map (\<lambda>j. convertToType rt (row ! j) (ptype (props ! j)))
        [0..<length row])[m := JSNull] ! i"
  proof (cases "i = m")
    case True
    with i show ?thesis by (simp add: convertRow_def)
  next
    case False
    with i len show ?thesis by (simp add: convertRow_def)
  qed
qed

lemma publishRow_valid:
  assumes "length row = length (properties schema)"
    and "\<forall>j<length row. getType rt (row ! j) = ptype (properties schema ! j)"
  shows "publishRow rt schema row =
     Inr [\<lparr>invalid = False, error = None,
           data = map (\<lambda>j. convertToType rt (row ! j) (ptype (properties schema ! j)))
                    [0..<length row]\<rparr>]"
proof -
  have "checkValidTypes rt row (properties schema) =
      Inr \<lparr>vc_error = None, vc_index = None, vc_invalid = False\<rparr>"
    unfolding checkValidTypes_def using assms by (rule checkValidTypes_loop_valid)
  then show ?thesis
    using assms(1) by (simp add: publishRow_def getPropertyTypes_def convertRow_valid)
qed

lemma publishRow_invalid:
  assumes "length row = length (properties schema)" and "m < length row"
    and "\<forall>j<m. getType rt (row ! j) = ptype (properties schema ! j)"
    and "getType rt (row ! m) \<noteq> ptype (properties schema ! m)"
  shows "publishRow rt schema row =
     Inr [\<lparr>invalid = True,
           error = Some (''Expected type: '' @ ptype (properties schema ! m) @
                         '' but got type: '' @ getType rt (row ! m)),
           data = (map (\<lambda>j. convertToType rt (row ! j) (ptype (properties schema ! j)))
                     [0..<length row])[m := JSNull]\<rparr>]"
proof -
  have "checkValidTypes rt row (properties schema) =
      Inr \<lparr>vc_error = Some (''Expected type: '' @ ptype (properties schema ! m) @
                 '' but got type: '' @ getType rt (row ! m)),
           vc_index = Some (0 + m), vc_invalid = True\<rparr>"
    unfolding checkValidTypes_def using assms by (rule checkValidTypes_loop_invalid)
  then show ?thesis
    using assms(1) convertRow_invalid [of row "properties schema" rt m]
    by (simp add: publishRow_def getPropertyTypes_def)
qed

text \<open>
  C3, amended. For a row with as many cells as the schema has properties, checked from
  left to right by \<^verbatim>\<open>getType\<close> against the declared types: when the first mismatch is at
  index \<open>m\<close>, the record written has \<^verbatim>\<open>invalid\<close> true, null at index \<open>m\<close> of its data,
  every other cell converted under its declared type, and the error text
  \<^verbatim>\<open>Expected type: E but got type: O\<close> with the declared type \<open>E\<close> and the type \<open>O\<close> found.
  The error text does not name the index. When no cell mismatches, the record has
  \<^verbatim>\<open>invalid\<close> false, no error, and every cell converted under its declared type.
\<close>

theorem publishRow_record:
  "length row = length (properties schema) \<Longrightarrow>
   (m < length row \<and>
    (\<forall>j<m. getType rt (row ! j) = ptype (properties schema ! j)) \<and>
    getType rt (row ! m) \<noteq> ptype (properties schema ! m) \<longrightarrow>
      publishRow rt schema row =
        Inr [\<lparr>invalid = True,
              error = Some (''Expected type: '' @ ptype (properties schema ! m) @
                            '' but got type: '' @ getType rt (row ! m)),
              data = (map (\<lambda>j. convertToType rt (row ! j) (ptype (properties schema ! j)))
                        [0..<length row])[m := JSNull]\<rparr>]) \<and>
   ((\<forall>j<length row. getType rt (row ! j) = ptype (properties schema ! j)) \<longrightarrow>
      publishRow rt schema row =
        Inr [\<lparr>invalid = False, error = None,
              data = map (\<lambda>j. convertToType rt (row ! j) (ptype (properties schema ! j)))
                       [0..<length row]\<rparr>])"
  using publishRow_valid [of row schema rt] publishRow_invalid [of row schema m rt]
  by blast

theorem publishRow_record_witness:
  "length [''52'', ''Macropus fuliginosus'', ''blue'', ''1796-07-23''] =
     length (properties exampleSchema) \<and>
   getType exampleRuntime ''52'' = ''integer'' \<and>
   getType exampleRuntime ''Macropus fuliginosus'' = ''string'' \<and>
   getType exampleRuntime ''blue'' \<noteq> ''boolean'' \<and>
   publishRow exampleRuntime exampleSchema
       [''52'', ''Macropus fuliginosus'', ''blue'', ''1796-07-23''] =
     Inr [\<lparr>invalid = True,
           error = Some ''Expected type: boolean but got type: string'',
           data = [JSNumber ''52'', JSString ''Macropus fuliginosus'', JSNull,
                   JSDate ''1796-07-23'']\<rparr>] \<and>
   publishRow exampleRuntime exampleSchema
       [''7'', ''Vulpes chama'', ''false'', ''2001-02-03''] =
     Inr [\<lparr>invalid = False, error = None,
           data = [JSNumber ''7'', JSString ''Vulpes chama'', JSBoolean True,
                   JSDate ''2001-02-03'']\<rparr>]"
proof -
  let ?row = "[''52'', ''Macropus fuliginosus'', ''blue'', ''1796-07-23'']"
  let ?good = "[''7'', ''Vulpes chama'', ''false'', ''2001-02-03'']"
  have len: "length ?row = length (properties exampleSchema)"
    by (simp add: exampleSchema_def)
  have t0: "getType exampleRuntime ''52'' = ''integer''" by code_simp
  have t1: "getType exampleRuntime ''Macropus fuliginosus'' = ''string''" by code_simp
  have t2: "getType exampleRuntime ''blue'' = ''string''" by code_simp
  have before: "\<forall>j<2. getType exampleRuntime (?row ! j) = ptype (properties exampleSchema ! j)"
    using t0 t1 by (simp add: exampleSchema_def less_Suc_eq numeral_2_eq_2)
  have at: "getType exampleRuntime (?row ! 2) \<noteq> ptype (properties exampleSchema ! 2)"
    using t2 by (simp add: exampleSchema_def)
  have "publishRow exampleRuntime exampleSchema ?row =
      Inr [\<lparr>invalid = True,
            error = Some (''Expected type: '' @ ptype (properties exampleSchema ! 2) @
                          '' but got type: '' @ getType exampleRuntime (?row ! 2)),
            data = (map (\<lambda>j. convertToType exampleRuntime (?row ! j)
                       (ptype (properties exampleSchema ! j))) [0..<length ?row])[2 := JSNull]\<rparr>]"
    using publishRow_record [OF len, of 2 exampleRuntime] before at by simp
  then have bad: "publishRow exampleRuntime exampleSchema ?row =
      Inr [\<lparr>invalid = True,
            error = Some ''Expected type: boolean but got type: string'',
            data = [JSNumber ''52'', JSString ''Macropus fuliginosus'', JSNull,
                    JSDate ''1796-07-23'']\<rparr>]"
    using t2 by (simp add: exampleSchema_def convertToType_def exampleRuntime_def)
  have len': "length ?good = length (properties exampleSchema)"
    by (simp add: exampleSchema_def)
  have g: "getType exampleRuntime ''7'' = ''integer''"
    "getType exampleRuntime ''Vulpes chama'' = ''string''"
    "getType exampleRuntime ''false'' = ''boolean''"
    "getType exampleRuntime ''2001-02-03'' = ''datetime''"
    by code_simp+
  have all: "\<forall>j<length ?good.
      getType exampleRuntime (?good ! j) = ptype (properties exampleSchema ! j)"
    using g by (simp add: exampleSchema_def less_Suc_eq)
  have "publishRow exampleRuntime exampleSchema ?good =
      Inr [\<lparr>invalid = False, error = None,
            data = map (\<lambda>j. convertToType exampleRuntime (?good ! j)
                       (ptype (properties exampleSchema ! j))) [0..<length ?good]\<rparr>]"
    using publishRow_record [OF len', of 0 exampleRuntime] all by blast
  then have good: "publishRow exampleRuntime exampleSchema ?good =
      Inr [\<lparr>invalid = False, error = None,
            data = [JSNumber ''7'', JSString ''Vulpes chama'', JSBoolean True,
                    JSDate ''2001-02-03'']\<rparr>]"
    by (simp add: exampleSchema_def convertToType_def exampleRuntime_def toLowerCase_def)
  from len t0 t1 t2 bad good show ?thesis by simp
qed

text \<open>
  C3, counterexample. For the row with \<^verbatim>\<open>blue\<close> in the boolean column 2, the error text
  names the two types and holds no digit 2.
\<close>

theorem publishRow_record_counterexample:
  "map error (fst (publishFile exampleRuntime exampleSchema
       [[''52'', ''Macropus fuliginosus'', ''blue'', ''1796-07-23'']])) =
     [Some ''Expected type: boolean but got type: string''] \<and>
   CHR ''2'' \<notin> set ''Expected type: boolean but got type: string''"
  by code_simp

lemma checkValidTypes_loop_total:
  "length row = length types \<Longrightarrow> \<exists>vc. checkValidTypes_loop rt i row types = Inr vc"
  by (induction rt i row types rule: checkValidTypes_loop.induct) (auto simp: Let_def)

lemma publishRow_well_formed:
  assumes "wellFormedRow schema row"
  shows "\<exists>r. publishRow rt schema row = Inr [r]"
proof -
  from assms have len: "length row = length (properties schema)"
    by (simp add: wellFormedRow_def)
  then obtain vc where "checkValidTypes rt row (properties schema) = Inr vc"
    unfolding checkValidTypes_def using checkValidTypes_loop_total by blast
  with len show ?thesis
    by (cases "vc_invalid vc") (simp_all add: publishRow_def getPropertyTypes_def Let_def)
qed

lemma publishRow_dropped:
  "\<not> wellFormedRow schema row \<Longrightarrow> publishRow rt schema row = Inr []"
  by (simp add: publishRow_def getPropertyTypes_def wellFormedRow_def)

lemma publishRow_Inr: "\<exists>recs. publishRow rt schema row = Inr recs"
  using publishRow_well_formed [of schema row rt] publishRow_dropped [of schema row rt]
  by blast

lemma length_rowRecords:
  "length (rowRecords rt schema row) = (if wellFormedRow schema row then 1 else 0)"
proof (cases "wellFormedRow schema row")
  case True
  then obtain r where "publishRow rt schema row = Inr [r]"
    using publishRow_well_formed by blast
  with True show ?thesis by (simp add: rowRecords_def)
next
  case False
  then show ?thesis by (simp add: rowRecords_def publishRow_dropped)
qed

lemma publishFile_rowRecords:
  "publishFile rt schema rows = (concat (map (rowRecords rt schema) rows), None)"
proof (induction rows)
  case Nil
  then show ?case by simp
next
  case (Cons row rows)
  obtain recs where "publishRow rt schema row = Inr recs"
    using publishRow_Inr by blast
  with Cons show ?case by (simp add: rowRecords_def)
qed

lemma length_publishFile:
  "length (fst (publishFile rt schema rows)) = length (filter (wellFormedRow schema) rows)"
  by (induction rows) (simp_all add: publishFile_rowRecords length_rowRecords)

lemma publishFile_filter:
  "fst (publishFile rt schema (filter (wellFormedRow schema) rows)) =
   fst (publishFile rt schema rows)"
proof (induction rows)
  case Nil
  then show ?case by simp
next
  case (Cons row rows)
  then have IH: "concat (map (rowRecords rt schema) (filter (wellFormedRow schema) rows)) =
      concat (map (rowRecords rt schema) rows)"
    by (simp add: publishFile_rowRecords)
  show ?case
  proof (cases "wellFormedRow schema row")
    case True
    with IH show ?thesis by (simp add: publishFile_rowRecords)
  next
    case False
    then have "rowRecords rt schema row = []"
      by (simp add: rowRecords_def publishRow_dropped)
    with False IH show ?thesis by (simp add: publishFile_rowRecords)
  qed
qed

lemma Publish_settle_concat:
  "Publish_settle rt fs schema files order stream =
   stream @ concat (map (\<lambda>k. fileRecords rt fs schema (files ! k)) order)"
  by (induction order arbitrary: stream) (simp_all add: fileRecords_def split: option.splits)

lemma Publish_concat:
  "Publish rt fs order schema =
   concat (map (\<lambda>k. fileRecords rt fs schema (split_comma (settings schema) ! k)) order)"
  by (simp add: Publish_def Publish_settle_concat)

lemma length_fileRecords:
  "length (fileRecords rt fs schema f) =
   (case fs f of None \<Rightarrow> 0 | Some rows \<Rightarrow> length (filter (wellFormedRow schema) rows))"
  by (simp add: fileRecords_def length_publishFile split: option.splits)

lemma sum_list_permutation:
  fixes g :: "nat \<Rightarrow> nat"
  assumes "distinct order" "set order = {..<n}"
  shows "sum_list (map g order) = sum_list (map g [0..<n])"
proof -
  have "sum_list (map g order) = sum g (set order)"
    using assms(1) by (simp add: sum_list_distinct_conv_sum_set)
  also have "\<dots> = sum g (set [0..<n])" using assms(2) by (simp add: lessThan_atLeast0)
  also have "\<dots> = sum_list (map g [0..<n])"
    by (simp add: sum_list_distinct_conv_sum_set)
  finally show ?thesis .
qed

lemma length_Publish:
  assumes "distinct order" "set order = {..<length (split_comma (settings schema))}"
  shows "length (Publish rt fs order schema) =
    sum_list (map (\<lambda>f. case fs f of None \<Rightarrow> 0
                       | Some rows \<Rightarrow> length (filter (wellFormedRow schema) rows))
                (split_comma (settings schema)))"
proof -
  let ?files = "split_comma (settings schema)"
  let ?g = "\<lambda>f. case fs f of None \<Rightarrow> 0
                | Some rows \<Rightarrow> length (filter (wellFormedRow schema) rows)"
  have "length (Publish rt fs order schema) = sum_list (map (\<lambda>k. ?g (?files ! k)) order)"
    by (simp add: Publish_concat length_concat comp_def length_fileRecords)
  also have "\<dots> = sum_list (map (\<lambda>k. ?g (?files ! k)) [0..<length ?files])"
    using assms by (rule sum_list_permutation)
  also have "\<dots> = sum_list (map ?g (map (\<lambda>k. ?files ! k) [0..<length ?files]))"
    by (simp add: comp_def)
  also have "\<dots> = sum_list (map ?g ?files)" by (simp only: map_nth)
  finally show ?thesis .
qed

text \<open>
  C4. \<^verbatim>\<open>publishFile\<close> writes exactly one record for every row that has as many cells as
  the schema has properties, and nothing for any other row: such a row leaves no trace
  in the stream and raises no error. So the stream of \<^verbatim>\<open>Publish\<close> has as many records as
  the files of the schema have well-formed rows, in whatever order their reads end.
\<close>

theorem Publish_one_record_per_well_formed_row:
  "(wellFormedRow schema row \<longrightarrow> (\<exists>r. publishRow rt schema row = Inr [r])) \<and>
   (\<not> wellFormedRow schema row \<longrightarrow> publishRow rt schema row = Inr []) \<and>
   snd (publishFile rt schema rows) = None \<and>
   length (fst (publishFile rt schema rows)) = length (filter (wellFormedRow schema) rows) \<and>
   fst (publishFile rt schema rows) =
     fst (publishFile rt schema (filter (wellFormedRow schema) rows)) \<and>
   (distinct order \<and> set order = {..<length (split_comma (settings schema))} \<longrightarrow>
      length (Publish rt fs order schema) =
        sum_list (map (\<lambda>f. case fs f of None \<Rightarrow> 0
                           | Some rows \<Rightarrow> length (filter (wellFormedRow schema) rows))
                    (split_comma (settings schema))))"
  using publishRow_well_formed [of schema row rt] publishRow_dropped [of schema row rt]
    length_publishFile [of rt schema rows] publishFile_filter [of rt schema rows]
    length_Publish [of order schema rt fs]
  by (simp add: publishFile_rowRecords)

theorem Publish_one_record_per_well_formed_row_witness:
  "wellFormedRow exampleSchema [''52'', ''Macropus fuliginosus'', ''blue'', ''1796-07-23''] \<and>
   \<not> wellFormedRow exampleSchema [''53'', ''Ciconia ciconia''] \<and>
   publishRow exampleRuntime exampleSchema [''53'', ''Ciconia ciconia''] = Inr [] \<and>
   length (fst (publishFile exampleRuntime exampleSchema
     [[''52'', ''Macropus fuliginosus'', ''blue'', ''1796-07-23''],
      [''53'', ''Ciconia ciconia'']])) = 1 \<and>
   distinct [1, 0 :: nat] \<and>
   set [1, 0] = {..<length (split_comma (settings exampleSchema))} \<and>
   length (Publish exampleRuntime exampleFiles [1, 0] exampleSchema) = 2"
proof -
  let ?rows = "[[''52'', ''Macropus fuliginosus'', ''blue'', ''1796-07-23''],
      [''53'', ''Ciconia ciconia'']]"
  have files: "split_comma (settings exampleSchema) =
      [''/data/animals.1.csv'', ''/data/animals.2.csv'']"
    by code_simp
  have wf: "wellFormedRow exampleSchema [''7'', ''Vulpes chama'', ''false'', ''2001-02-03'']"
    "\<not> wellFormedRow exampleSchema [''53'', ''Ciconia ciconia'']"
    "wellFormedRow exampleSchema [''52'', ''Macropus fuliginosus'', ''blue'', ''1796-07-23'']"
    by (simp_all add: wellFormedRow_def exampleSchema_def)
  have order: "distinct [1, 0 :: nat]"
    "set [1, 0] = {..<length (split_comma (settings exampleSchema))}"
    by (auto simp: files)
  note inst = Publish_one_record_per_well_formed_row [where schema = exampleSchema
      and row = "[''53'', ''Ciconia ciconia'']" and rt = exampleRuntime
      and order = "[1, 0]" and fs = exampleFiles and rows = ?rows]
  have dropped: "publishRow exampleRuntime exampleSchema [''53'', ''Ciconia ciconia''] = Inr []"
    using inst wf(2) by blast
  have "length (fst (publishFile exampleRuntime exampleSchema ?rows)) =
      length (filter (wellFormedRow exampleSchema) ?rows)"
    using inst by blast
  then have one: "length (fst (publishFile exampleRuntime exampleSchema ?rows)) = 1"
    using wf by (simp del: publishFile.simps)
  have "length (Publish exampleRuntime exampleFiles [1, 0] exampleSchema) =
      sum_list (map (\<lambda>f. case exampleFiles f of None \<Rightarrow> 0
                         | Some rows \<Rightarrow> length (filter (wellFormedRow exampleSchema) rows))
                  (split_comma (settings exampleSchema)))"
    using inst order by blast
  then have two: "length (Publish exampleRuntime exampleFiles [1, 0] exampleSchema) = 2"
    using wf by (simp add: files exampleFiles_def)
  from wf order dropped one two show ?thesis by blast
qed

text \<open>
  C5, amended. The records of one file are written together and in the order of its
  rows. The files follow each other in the stream in the order in which their reads
  end, which the program leaves to the runtime: \<^verbatim>\<open>Publish\<close> starts all the reads and
  waits for none. The order is file order, then row order, when the reads end in file
  order, as they do with a single file; and the stream is a function of the schema, the
  files and that order.
\<close>

theorem Publish_emission_order:
  "fst (publishFile rt schema rows) = concat (map (rowRecords rt schema) rows) \<and>
   Publish rt fs order schema =
     concat (map (\<lambda>k. fileRecords rt fs schema (split_comma (settings schema) ! k)) order) \<and>
   Publish rt fs [0..<length (split_comma (settings schema))] schema =
     concat (map (fileRecords rt fs schema) (split_comma (settings schema)))"
proof -
  let ?files = "split_comma (settings schema)"
  have "map (\<lambda>k. fileRecords rt fs schema (?files ! k)) [0..<length ?files] =
      map (fileRecords rt fs schema) (map (\<lambda>k. ?files ! k) [0..<length ?files])"
    by (simp add: comp_def)
  also have "\<dots> = map (fileRecords rt fs schema) ?files" by (simp only: map_nth)
  finally show ?thesis by (simp add: publishFile_rowRecords Publish_concat)
qed

theorem Publish_emission_order_witness:
  "map data (Publish exampleRuntime exampleFiles [0, 1] exampleSchema) =
     [[JSNumber ''52'', JSString ''Macropus fuliginosus'', JSNull, JSDate ''1796-07-23''],
      [JSNumber ''7'', JSString ''Vulpes chama'', JSBoolean True, JSDate ''2001-02-03'']]"
proof -
  have files: "split_comma (settings exampleSchema) =
      [''/data/animals.1.csv'', ''/data/animals.2.csv'']"
    by code_simp
  have f1: "map data (fileRecords exampleRuntime exampleFiles exampleSchema
        ''/data/animals.1.csv'') =
      [[JSNumber ''52'', JSString ''Macropus fuliginosus'', JSNull, JSDate ''1796-07-23'']]"
    by code_simp
  have f2: "map data (fileRecords exampleRuntime exampleFiles exampleSchema
        ''/data/animals.2.csv'') =
      [[JSNumber ''7'', JSString ''Vulpes chama'', JSBoolean True, JSDate ''2001-02-03'']]"
    by code_simp
  show ?thesis
    using Publish_emission_order [of exampleRuntime exampleSchema "[]" exampleFiles "[0, 1]"]
      f1 f2
    by (simp add: files)
qed

text \<open>
  C5, counterexample. Two calls of \<^verbatim>\<open>Publish\<close> on the same schema and the same files
  give the records in different orders when the read of the second file ends first in
  one call and last in the other.
\<close>

theorem Publish_emission_order_counterexample:
  "map data (Publish exampleRuntime exampleFiles [1, 0] exampleSchema) =
     [[JSNumber ''7'', JSString ''Vulpes chama'', JSBoolean True, JSDate ''2001-02-03''],
      [JSNumber ''52'', JSString ''Macropus fuliginosus'', JSNull, JSDate ''1796-07-23'']] \<and>
   Publish exampleRuntime exampleFiles [1, 0] exampleSchema \<noteq>
   Publish exampleRuntime exampleFiles [0, 1] exampleSchema"
  by code_simp

section \<open>The vote on the type of a column\<close>

lemma typePriority_nth_eq:
  "k < 5 \<Longrightarrow> k' < 5 \<Longrightarrow> typePriority ! k = typePriority ! k' \<longleftrightarrow> k = k'"
proof -
  assume "k < 5" "k' < 5"
  moreover have "distinct typePriority" "length typePriority = 5"
    by (simp_all add: typePriority_def)
  ultimately show ?thesis by (simp add: nth_eq_iff_index_eq)
qed

lemma typeCountIndex_getType:
  "\<exists>k<5. typeCountIndex (getType rt v) = Some k \<and> typePriority ! k = getType rt v"
proof -
  have "getType rt v \<in> set typePriority" by (rule getType_five)
  then consider "getType rt v = ''integer''" | "getType rt v = ''number''"
    | "getType rt v = ''boolean''" | "getType rt v = ''datetime''"
    | "getType rt v = ''string''"
    by (auto simp: typePriority_def)
  then show ?thesis
  proof cases
    case 1
    then have "typeCountIndex (getType rt v) = Some 0 \<and> typePriority ! 0 = getType rt v"
      by (simp add: typeCountIndex_def typePriority_def)
    then show ?thesis by (intro exI [of _ 0]) simp
  next
    case 2
    then have "typeCountIndex (getType rt v) = Some 1 \<and> typePriority ! 1 = getType rt v"
      by (simp add: typeCountIndex_def typePriority_def)
    then show ?thesis by (intro exI [of _ 1]) simp
  next
    case 3
    then have "typeCountIndex (getType rt v) = Some 2 \<and> typePriority ! 2 = getType rt v"
      by (simp add: typeCountIndex_def typePriority_def)
    then show ?thesis by (intro exI [of _ 2]) simp
  next
    case 4
    then have "typeCountIndex (getType rt v) = Some 3 \<and> typePriority ! 3 = getType rt v"
      by (simp add: typeCountIndex_def typePriority_def)
    then show ?thesis by (intro exI [of _ 3]) simp
  next
    case 5
    then have "typeCountIndex (getType rt v) = Some 4 \<and> typePriority ! 4 = getType rt v"
      by (simp add: typeCountIndex_def typePriority_def)
    then show ?thesis by (intro exI [of _ 4]) simp
  qed
qed

lemma countRow_counts:
  assumes "j + length vs \<le> length tca" and "\<forall>tc\<in>set tca. length tc = 5"
  shows "\<exists>tca'. countRow rt j vs tca = Inr tca' \<and> length tca' = length tca \<and>
      (\<forall>tc\<in>set tca'. length tc = 5) \<and>
      (\<forall>c<length tca. \<forall>k<5. tca' ! c ! k = tca ! c ! k +
         (if j \<le> c \<and> c < j + length vs \<and> getType rt (vs ! (c - j)) = typePriority ! k
          then 1 else 0))"
  using assms
proof (induction vs arbitrary: j tca)
  case Nil
  then show ?case by simp
next
  case (Cons v vs)
  obtain k0 where k0: "k0 < 5" "typeCountIndex (getType rt v) = Some k0"
    "typePriority ! k0 = getType rt v"
    using typeCountIndex_getType by blast
  have j: "j < length tca" using Cons.prems(1) by simp
  define tca1 where "tca1 = tca[j := (tca ! j)[k0 := Suc (tca ! j ! k0)]]"
  have len1: "length tca1 = length tca" by (simp add: tca1_def)
  have five_j: "length (tca ! j) = 5" using Cons.prems(2) j by simp
  have shape1: "\<forall>tc\<in>set tca1. length tc = 5"
  proof
    fix tc
    assume "tc \<in> set tca1"
    then have "tc \<in> insert ((tca ! j)[k0 := Suc (tca ! j ! k0)]) (set tca)"
      unfolding tca1_def using set_update_subset_insert by fastforce
    then show "length tc = 5" using Cons.prems(2) five_j by auto
  qed
  have at1: "tca1 ! c ! k = tca ! c ! k + (if c = j \<and> k = k0 then 1 else 0)"
    if "c < length tca" "k < 5" for c k
    using that j five_j by (simp add: tca1_def nth_list_update)
  have step: "countRow rt j (v # vs) tca = countRow rt (Suc j) vs tca1"
    using k0(2) j by (simp add: tca1_def)
  have "Suc j + length vs \<le> length tca1" using Cons.prems(1) len1 by simp
  from Cons.IH [OF this shape1] obtain tca' where
    res: "countRow rt (Suc j) vs tca1 = Inr tca'" and len': "length tca' = length tca1"
    and shape': "\<forall>tc\<in>set tca'. length tc = 5"
    and cnt': "\<forall>c<length tca1. \<forall>k<5. tca' ! c ! k = tca1 ! c ! k +
         (if Suc j \<le> c \<and> c < Suc j + length vs \<and>
             getType rt (vs ! (c - Suc j)) = typePriority ! k then 1 else 0)"
    by blast
  have "tca' ! c ! k = tca ! c ! k +
         (if j \<le> c \<and> c < j + length (v # vs) \<and>
             getType rt ((v # vs) ! (c - j)) = typePriority ! k then 1 else 0)"
    if c: "c < length tca" and k: "k < 5" for c k
  proof -
    have a: "tca' ! c ! k = tca1 ! c ! k +
         (if Suc j \<le> c \<and> c < Suc j + length vs \<and>
             getType rt (vs ! (c - Suc j)) = typePriority ! k then 1 else 0)"
      using cnt' c k len1 by simp
    have b: "tca1 ! c ! k = tca ! c ! k + (if c = j \<and> k = k0 then 1 else 0)"
      using at1 c k by simp
    show ?thesis
    proof (cases "c = j")
      case True
      have "(getType rt v = typePriority ! k) = (k = k0)"
        using typePriority_nth_eq [OF k k0(1)] k0(3) by auto
      with True a b show ?thesis by simp
    next
      case False
      then have "(v # vs) ! (c - j) = vs ! (c - Suc j)" if "j \<le> c"
        using that by (simp add: nth_Cons')
      with False a b show ?thesis by auto
    qed
  qed
  with step res len' len1 shape' show ?case by auto
qed


lemma columnValues_Cons:
  "columnValues c (row # rows) =
     (if c < length row then [snd (row ! c)] else []) @ columnValues c rows"
  by (simp add: columnValues_def)

lemma tally_append: "tally rt t (xs @ ys) = tally rt t xs + tally rt t ys"
  by (simp add: tally_def)

lemma countRows_counts:
  assumes "\<forall>row\<in>set rows. length row \<le> length tca" and "\<forall>tc\<in>set tca. length tc = 5"
  shows "\<exists>tca'. countRows rt rows tca = Inr tca' \<and> length tca' = length tca \<and>
      (\<forall>tc\<in>set tca'. length tc = 5) \<and>
      (\<forall>c<length tca. \<forall>k<5. tca' ! c ! k =
         tca ! c ! k + tally rt (typePriority ! k) (columnValues c rows))"
  using assms
proof (induction rows arbitrary: tca)
  case Nil
  then show ?case by (simp add: columnValues_def tally_def)
next
  case (Cons row rows)
  have "0 + length (map snd row) \<le> length tca" using Cons.prems(1) by simp
  from countRow_counts [OF this Cons.prems(2), of rt] obtain tca1 where
    r1: "countRow rt 0 (map snd row) tca = Inr tca1" and len1: "length tca1 = length tca"
    and shape1: "\<forall>tc\<in>set tca1. length tc = 5"
    and cnt1: "\<forall>c<length tca. \<forall>k<5. tca1 ! c ! k = tca ! c ! k +
         (if 0 \<le> c \<and> c < 0 + length (map snd row) \<and>
             getType rt (map snd row ! (c - 0)) = typePriority ! k then 1 else 0)"
    by blast
  have "\<forall>row\<in>set rows. length row \<le> length tca1" using Cons.prems(1) len1 by simp
  from Cons.IH [OF this shape1] obtain tca' where
    r': "countRows rt rows tca1 = Inr tca'" and len': "length tca' = length tca1"
    and shape': "\<forall>tc\<in>set tca'. length tc = 5"
    and cnt': "\<forall>c<length tca1. \<forall>k<5. tca' ! c ! k =
         tca1 ! c ! k + tally rt (typePriority ! k) (columnValues c rows)"
    by blast
  have "tca' ! c ! k = tca ! c ! k + tally rt (typePriority ! k) (columnValues c (row # rows))"
    if c: "c < length tca" and k: "k < 5" for c k
  proof -
    have a: "tca1 ! c ! k = tca ! c ! k +
        (if c < length row \<and> getType rt (snd (row ! c)) = typePriority ! k then 1 else 0)"
      using cnt1 c k by auto
    have b: "tca' ! c ! k = tca1 ! c ! k + tally rt (typePriority ! k) (columnValues c rows)"
      using cnt' c k len1 by simp
    have "tally rt (typePriority ! k) (if c < length row then [snd (row ! c)] else []) =
        (if c < length row \<and> getType rt (snd (row ! c)) = typePriority ! k then 1 else 0)"
      by (simp add: tally_def)
    with a b show ?thesis by (simp add: columnValues_Cons tally_append)
  qed
  with r1 r' len' len1 shape' show ?case by auto
qed

lemma getIndexOfMax_loop_first_largest:
  assumes "i = length pre" and "mi < i" and "mx = (pre @ arr) ! mi"
    and "\<forall>p<i. (pre @ arr) ! p \<le> mx" and "\<forall>p<mi. (pre @ arr) ! p < mx"
  shows "getIndexOfMax_loop i arr mx mi < length (pre @ arr) \<and>
     (\<forall>p<length (pre @ arr).
        (pre @ arr) ! p \<le> (pre @ arr) ! getIndexOfMax_loop i arr mx mi) \<and>
     (\<forall>p<getIndexOfMax_loop i arr mx mi.
        (pre @ arr) ! p < (pre @ arr) ! getIndexOfMax_loop i arr mx mi)"
  using assms
proof (induction arr arbitrary: i pre mx mi)
  case Nil
  then show ?case by simp
next
  case (Cons x arr)
  have eq: "pre @ x # arr = (pre @ [x]) @ arr" by simp
  have xi: "(pre @ x # arr) ! i = x" using Cons.prems(1) by simp
  show ?case
  proof (cases "x > mx")
    case True
    have 1: "Suc i = length (pre @ [x])" using Cons.prems(1) by simp
    have 2: "i < Suc i" by simp
    have 3: "x = ((pre @ [x]) @ arr) ! i" using xi by simp
    have 4: "\<forall>p<Suc i. ((pre @ [x]) @ arr) ! p \<le> x"
    proof (intro allI impI)
      fix p
      assume "p < Suc i"
      then consider "p < i" | "p = i" by linarith
      then show "((pre @ [x]) @ arr) ! p \<le> x"
      proof cases
        case 1
        then have "(pre @ x # arr) ! p \<le> mx" using Cons.prems(4) by simp
        with True show ?thesis by simp
      next
        case 2
        then show ?thesis using xi by simp
      qed
    qed
    have 5: "\<forall>p<i. ((pre @ [x]) @ arr) ! p < x"
    proof (intro allI impI)
      fix p
      assume "p < i"
      then have "(pre @ x # arr) ! p \<le> mx" using Cons.prems(4) by simp
      with True show "((pre @ [x]) @ arr) ! p < x" by simp
    qed
    have step: "getIndexOfMax_loop i (x # arr) mx mi = getIndexOfMax_loop (Suc i) arr x i"
      using True by simp
    show ?thesis unfolding step eq using Cons.IH [OF 1 2 3 4 5] by blast
  next
    case False
    have 1: "Suc i = length (pre @ [x])" using Cons.prems(1) by simp
    have 2: "mi < Suc i" using Cons.prems(2) by simp
    have 3: "mx = ((pre @ [x]) @ arr) ! mi" using Cons.prems(3) by simp
    have 4: "\<forall>p<Suc i. ((pre @ [x]) @ arr) ! p \<le> mx"
    proof (intro allI impI)
      fix p
      assume "p < Suc i"
      then consider "p < i" | "p = i" by linarith
      then show "((pre @ [x]) @ arr) ! p \<le> mx"
      proof cases
        case 1
        then show ?thesis using Cons.prems(4) by simp
      next
        case 2
        then show ?thesis using xi False by simp
      qed
    qed
    have 5: "\<forall>p<mi. ((pre @ [x]) @ arr) ! p < mx" using Cons.prems(5) by simp
    have step: "getIndexOfMax_loop i (x # arr) mx mi = getIndexOfMax_loop (Suc i) arr mx mi"
      using False by simp
    show ?thesis unfolding step eq using Cons.IH [OF 1 2 3 4 5] by blast
  qed
qed

lemma getIndexOfMax_first_largest:
  assumes "arr \<noteq> []"
  shows "\<exists>m<length arr. getIndexOfMax arr = int m \<and> (\<forall>p<length arr. arr ! p \<le> arr ! m) \<and>
     (\<forall>p<m. arr ! p < arr ! m)"
proof -
  from assms obtain x rest where arr: "arr = x # rest" by (cases arr) auto
  have "getIndexOfMax_loop 1 rest x 0 < length ([x] @ rest) \<and>
     (\<forall>p<length ([x] @ rest).
        ([x] @ rest) ! p \<le> ([x] @ rest) ! getIndexOfMax_loop 1 rest x 0) \<and>
     (\<forall>p<getIndexOfMax_loop 1 rest x 0.
        ([x] @ rest) ! p < ([x] @ rest) ! getIndexOfMax_loop 1 rest x 0)"
    by (rule getIndexOfMax_loop_first_largest) simp_all
  then show ?thesis
    unfolding arr getIndexOfMax_def by (intro exI [of _ "getIndexOfMax_loop 1 rest x 0"]) simp
qed

lemma typeOfIndex_nth: "m < 5 \<Longrightarrow> typeOfIndex (int m) ty = typePriority ! m"
proof -
  assume "m < 5"
  then consider "m = 0" | "m = 1" | "m = 2" | "m = 3" | "m = 4" by linarith
  then show ?thesis by cases (simp_all add: typeOfIndex_def typePriority_def)
qed

lemma pushProperties_nth:
  assumes "\<forall>tc\<in>set tca. length tc = 5" and "c < length tca"
  shows "length (pushProperties keys i tca ty) = length tca \<and>
     pname (pushProperties keys i tca ty ! c) = keys ! (i + c) \<and>
     (\<exists>m<5. getIndexOfMax (tca ! c) = int m \<and>
        ptype (pushProperties keys i tca ty ! c) = typePriority ! m)"
  using assms
proof (induction tca arbitrary: i c ty)
  case Nil
  then show ?case by simp
next
  case (Cons tc tca)
  have "tc \<noteq> []" using Cons.prems(1) by auto
  then obtain m where m: "m < length tc" "getIndexOfMax tc = int m"
    using getIndexOfMax_first_largest by blast
  then have m5: "m < 5" using Cons.prems(1) by simp
  have len: "length (pushProperties keys (Suc i) tca ty') = length tca" for ty'
  proof (cases tca)
    case Nil
    then show ?thesis by simp
  next
    case (Cons a list)
    then have "0 < length tca" by simp
    with Cons.IH [of 0 "Suc i" ty'] Cons.prems(1) show ?thesis by simp
  qed
  show ?case
  proof (cases c)
    case 0
    then show ?thesis using m m5 len by (auto simp: Let_def typeOfIndex_nth)
  next
    case (Suc c')
    then have "c' < length tca" using Cons.prems(2) by simp
    with Cons.IH [of c' "Suc i" "typeOfIndex (getIndexOfMax tc) ty"] Cons.prems(1) Suc len
    show ?thesis by (auto simp: Let_def)
  qed
qed


lemma tally_integer_other:
  "t \<noteq> ''integer'' \<Longrightarrow> tally rt ''integer'' vs + tally rt t vs \<le> length vs"
  by (induction vs) (auto simp: tally_def)

lemma inferProperties_vote:
  assumes wf: "\<forall>row\<in>set (row0 # rest). length row \<le> length row0"
  shows "\<exists>props. inferProperties rt (row0 # rest) = Inr (map fst row0, props) \<and>
     length props = length row0 \<and>
     (\<forall>j<length row0. pname (props ! j) = fst (row0 ! j) \<and>
        (\<exists>m<5. ptype (props ! j) = typePriority ! m \<and>
           (\<forall>k<5. tally rt (typePriority ! k) (columnValues j (row0 # rest)) \<le>
                   tally rt (typePriority ! m) (columnValues j (row0 # rest))) \<and>
           (\<forall>k<m. tally rt (typePriority ! k) (columnValues j (row0 # rest)) <
                   tally rt (typePriority ! m) (columnValues j (row0 # rest)))))"
proof -
  let ?rows = "row0 # rest"
  let ?keys = "map fst row0"
  let ?tca0 = "replicate (length ?keys) [0, 0, 0, 0, 0 :: nat]"
  have shape0: "\<forall>tc\<in>set ?tca0. length tc = 5" by simp
  have wf0: "\<forall>row\<in>set ?rows. length row \<le> length ?tca0" using wf by simp
  from countRows_counts [OF wf0 shape0, of rt] obtain tca' where
    res: "countRows rt ?rows ?tca0 = Inr tca'" and len': "length tca' = length row0"
    and shape': "\<forall>tc\<in>set tca'. length tc = 5"
    and cnt: "\<forall>c<length ?tca0. \<forall>k<5. tca' ! c ! k =
        ?tca0 ! c ! k + tally rt (typePriority ! k) (columnValues c ?rows)"
    by auto
  have zero: "[0, 0, 0, 0, 0 :: nat] ! k = 0" if "k < 5" for k
  proof -
    from that consider "k = 0" | "k = 1" | "k = 2" | "k = 3" | "k = 4" by linarith
    then show ?thesis by cases simp_all
  qed
  have cnt': "tca' ! c ! k = tally rt (typePriority ! k) (columnValues c ?rows)"
    if "c < length row0" "k < 5" for c k
    using cnt that zero by simp
  define props where "props = pushProperties ?keys 0 tca' []"
  have infer: "inferProperties rt ?rows = Inr (?keys, props)"
    using res by (simp add: inferProperties_def props_def Let_def del: countRows.simps)
  have column: "pname (props ! j) = fst (row0 ! j) \<and>
        (\<exists>m<5. ptype (props ! j) = typePriority ! m \<and>
           (\<forall>k<5. tally rt (typePriority ! k) (columnValues j ?rows) \<le>
                   tally rt (typePriority ! m) (columnValues j ?rows)) \<and>
           (\<forall>k<m. tally rt (typePriority ! k) (columnValues j ?rows) <
                   tally rt (typePriority ! m) (columnValues j ?rows)))"
    if j: "j < length row0" for j
  proof -
    have jt: "j < length tca'" using j len' by simp
    from pushProperties_nth [OF shape' jt, of ?keys 0 "[]"] obtain m where
      pn: "pname (props ! j) = ?keys ! (0 + j)" and m5: "m < 5"
      and im: "getIndexOfMax (tca' ! j) = int m" and pt: "ptype (props ! j) = typePriority ! m"
      unfolding props_def by blast
    have five: "length (tca' ! j) = 5" using shape' jt by simp
    then have "tca' ! j \<noteq> []" by auto
    from getIndexOfMax_first_largest [OF this] obtain m' where
      "getIndexOfMax (tca' ! j) = int m'"
      and le: "\<forall>p<length (tca' ! j). tca' ! j ! p \<le> tca' ! j ! m'"
      and less: "\<forall>p<m'. tca' ! j ! p < tca' ! j ! m'"
      by blast
    with im have mm: "m' = m" by simp
    have a: "\<forall>k<5. tally rt (typePriority ! k) (columnValues j ?rows) \<le>
        tally rt (typePriority ! m) (columnValues j ?rows)"
      using le five mm m5 cnt' [OF j] by simp
    have b: "\<forall>k<m. tally rt (typePriority ! k) (columnValues j ?rows) <
        tally rt (typePriority ! m) (columnValues j ?rows)"
    proof (intro allI impI)
      fix k
      assume k: "k < m"
      then have "k < 5" using m5 by simp
      with less k mm m5 cnt' [OF j] show "tally rt (typePriority ! k) (columnValues j ?rows) <
        tally rt (typePriority ! m) (columnValues j ?rows)"
        by simp
    qed
    from pn j have "pname (props ! j) = fst (row0 ! j)" by simp
    with m5 pt a b show ?thesis by blast
  qed
  have "length props = length row0"
  proof (cases "length row0")
    case 0
    then have "tca' = []" using len' by simp
    with 0 show ?thesis by (simp add: props_def)
  next
    case (Suc n)
    then have "0 < length tca'" using len' by simp
    from pushProperties_nth [OF shape' this, of ?keys 0 "[]"] len' show ?thesis
      by (simp add: props_def)
  qed
  with infer column show ?thesis by blast
qed

text \<open>
  The vote on the types, for a file none of whose rows has more values than the first:
  \<^verbatim>\<open>getSchema\<close> gives one property per key of the first row, with the name of the key
  and the type chosen by the vote over the values of the column. The tally of that type
  is the highest of the five, and every type before it in the order integer, number,
  boolean, datetime, string has a strictly lower tally; a column with nine tenths of
  its values of type integer is an integer column. The schema of the file has these
  properties; it is what \<^verbatim>\<open>getSchema\<close> returns and appends to the known schemas when no
  known schema has the same header.
\<close>

lemma getSchema_vote_rows_fit:
  assumes "\<forall>row\<in>set (row0 # rest). length row \<le> length row0"
  shows "\<exists>props.
     inferProperties rt (row0 # rest) = Inr (map fst row0, props) \<and>
     getSchema rt knownSchemas filepath (row0 # rest) =
       Inr (checkKnownSchemas knownSchemas (fileSchema filepath props) (map fst row0)) \<and>
     properties (fileSchema filepath props) = props \<and>
     (findKnownSchema knownSchemas (map fst row0) = None \<longrightarrow>
        getSchema rt knownSchemas filepath (row0 # rest) =
          Inr (fileSchema filepath props, knownSchemas @ [fileSchema filepath props])) \<and>
     getSchema rt [] filepath (row0 # rest) =
       Inr (fileSchema filepath props, [fileSchema filepath props]) \<and>
     length props = length row0 \<and>
     (\<forall>j<length row0.
        pname (props ! j) = fst (row0 ! j) \<and>
        (\<exists>m<5. ptype (props ! j) = typePriority ! m \<and>
           (\<forall>k<5. tally rt (typePriority ! k) (columnValues j (row0 # rest)) \<le>
                   tally rt (typePriority ! m) (columnValues j (row0 # rest))) \<and>
           (\<forall>k<m. tally rt (typePriority ! k) (columnValues j (row0 # rest)) <
                   tally rt (typePriority ! m) (columnValues j (row0 # rest)))) \<and>
        (9 * length (columnValues j (row0 # rest)) \<le>
           10 * tally rt ''integer'' (columnValues j (row0 # rest)) \<longrightarrow>
         ptype (props ! j) = ''integer''))"
proof -
  let ?rows = "row0 # rest"
  from inferProperties_vote [OF assms, of rt] obtain props where
    infer: "inferProperties rt ?rows = Inr (map fst row0, props)"
    and len: "length props = length row0"
    and vote: "\<forall>j<length row0. pname (props ! j) = fst (row0 ! j) \<and>
        (\<exists>m<5. ptype (props ! j) = typePriority ! m \<and>
           (\<forall>k<5. tally rt (typePriority ! k) (columnValues j ?rows) \<le>
                   tally rt (typePriority ! m) (columnValues j ?rows)) \<and>
           (\<forall>k<m. tally rt (typePriority ! k) (columnValues j ?rows) <
                   tally rt (typePriority ! m) (columnValues j ?rows)))"
    by blast
  have known: "getSchema rt knownSchemas filepath ?rows =
      Inr (checkKnownSchemas knownSchemas (fileSchema filepath props) (map fst row0))"
    using infer by (simp add: getSchema_def)
  have props: "properties (fileSchema filepath props) = props"
    by (simp add: fileSchema_def)
  have fresh: "findKnownSchema knownSchemas (map fst row0) = None \<longrightarrow>
      getSchema rt knownSchemas filepath ?rows =
        Inr (fileSchema filepath props, knownSchemas @ [fileSchema filepath props])"
    using known by (simp add: checkKnownSchemas_def)
  have schema: "getSchema rt [] filepath ?rows =
      Inr (fileSchema filepath props, [fileSchema filepath props])"
    using infer by (simp add: getSchema_def checkKnownSchemas_def)
  have ninety: "ptype (props ! j) = ''integer''"
    if j: "j < length row0"
      and n: "9 * length (columnValues j ?rows) \<le> 10 * tally rt ''integer'' (columnValues j ?rows)"
    for j
  proof -
    let ?vs = "columnValues j ?rows"
    from vote j obtain m where m5: "m < 5" and pt: "ptype (props ! j) = typePriority ! m"
      and less: "\<forall>k<m. tally rt (typePriority ! k) ?vs < tally rt (typePriority ! m) ?vs"
      by blast
    have i0: "typePriority ! 0 = ''integer''" by (simp add: typePriority_def)
    have "m = 0"
    proof (rule ccontr)
      assume "m \<noteq> 0"
      then have m0: "0 < m" by simp
      with less i0 have lt: "tally rt ''integer'' ?vs < tally rt (typePriority ! m) ?vs"
        by auto
      have "typePriority ! m \<noteq> ''integer''"
        using typePriority_nth_eq [of m 0] m5 m0 i0 by auto
      then have "tally rt ''integer'' ?vs + tally rt (typePriority ! m) ?vs \<le> length ?vs"
        by (rule tally_integer_other)
      with lt n show False by linarith
    qed
    with pt i0 show ?thesis by simp
  qed
  have columns: "\<forall>j<length row0.
        pname (props ! j) = fst (row0 ! j) \<and>
        (\<exists>m<5. ptype (props ! j) = typePriority ! m \<and>
           (\<forall>k<5. tally rt (typePriority ! k) (columnValues j ?rows) \<le>
                   tally rt (typePriority ! m) (columnValues j ?rows)) \<and>
           (\<forall>k<m. tally rt (typePriority ! k) (columnValues j ?rows) <
                   tally rt (typePriority ! m) (columnValues j ?rows))) \<and>
        (9 * length (columnValues j ?rows) \<le>
           10 * tally rt ''integer'' (columnValues j ?rows) \<longrightarrow>
         ptype (props ! j) = ''integer'')"
    using vote ninety by blast
  show ?thesis
    by (intro exI [of _ props] conjI) (rule infer known props fresh schema len columns)+
qed

lemma getSchema_vote_rows_fit_example:
  "inferProperties exampleRuntime
     [[(''id'', ''1'')], [(''id'', ''2'')], [(''id'', ''3'')], [(''id'', ''4'')],
      [(''id'', ''5'')], [(''id'', ''6'')], [(''id'', ''7'')], [(''id'', ''8'')],
      [(''id'', ''9'')], [(''id'', ''blue'')]] =
     Inr ([''id''], [\<lparr>pname = ''id'', ptype = ''integer''\<rparr>]) \<and>
   length (columnValues 0
     [[(''id'', ''1'')], [(''id'', ''2'')], [(''id'', ''3'')], [(''id'', ''4'')],
      [(''id'', ''5'')], [(''id'', ''6'')], [(''id'', ''7'')], [(''id'', ''8'')],
      [(''id'', ''9'')], [(''id'', ''blue'')]]) = 10 \<and>
   tally exampleRuntime ''integer'' (columnValues 0
     [[(''id'', ''1'')], [(''id'', ''2'')], [(''id'', ''3'')], [(''id'', ''4'')],
      [(''id'', ''5'')], [(''id'', ''6'')], [(''id'', ''7'')], [(''id'', ''8'')],
      [(''id'', ''9'')], [(''id'', ''blue'')]]) = 9"
proof -
  let ?row0 = "[(''id'', ''1'')]"
  let ?rest = "[[(''id'', ''2'')], [(''id'', ''3'')], [(''id'', ''4'')],
      [(''id'', ''5'')], [(''id'', ''6'')], [(''id'', ''7'')], [(''id'', ''8'')],
      [(''id'', ''9'')], [(''id'', ''blue'')]]"
  have wf: "\<forall>row\<in>set (?row0 # ?rest). length row \<le> length ?row0" by simp
  have len: "length (columnValues 0 (?row0 # ?rest)) = 10" by code_simp
  have tal: "tally exampleRuntime ''integer'' (columnValues 0 (?row0 # ?rest)) = 9"
    by code_simp
  from getSchema_vote_rows_fit [OF wf, of exampleRuntime "[]" "''/data/ids.csv''"]
  obtain props where
    infer: "inferProperties exampleRuntime (?row0 # ?rest) = Inr (map fst ?row0, props)"
    and l: "length props = length ?row0"
    and col: "\<forall>j<length ?row0. pname (props ! j) = fst (?row0 ! j) \<and>
        (9 * length (columnValues j (?row0 # ?rest)) \<le>
           10 * tally exampleRuntime ''integer'' (columnValues j (?row0 # ?rest)) \<longrightarrow>
         ptype (props ! j) = ''integer'')"
    by blast
  from col len tal have p: "pname (props ! 0) = ''id''" "ptype (props ! 0) = ''integer''"
    by simp_all
  from l obtain q where q: "props = [q]" by (cases props) auto
  with p have "q = \<lparr>pname = ''id'', ptype = ''integer''\<rparr>" by (cases q) simp
  with infer q len tal show ?thesis by simp
qed

text \<open>
  A row with more values than the first row: the count of the value beyond the keys of
  the first row reads \<^verbatim>\<open>typeCountArray[j]\<close> out of range, and \<^verbatim>\<open>getSchema\<close> ends in a
  TypeError, whatever the values before it were counted as.
\<close>

lemma countRow_beyond_keys:
  "length tca \<le> j \<Longrightarrow> countRow rt j (v # vs) tca = Inl TypeError"
proof -
  assume j: "length tca \<le> j"
  obtain k where "typeCountIndex (getType rt v) = Some k"
    using typeCountIndex_getType by blast
  with j show ?thesis by simp
qed

text \<open>
  C2. The type of every column of a file with at least one data row is to be the winner
  of the vote over the values of the column. The code sizes its counts by the keys of
  the first row only, and a later row with one value more makes it fail: for the file
  with the header \<^verbatim>\<open>a\<close> and the rows \<^verbatim>\<open>1\<close> and \<^verbatim>\<open>2,3\<close> (the CSV reader names the value
  without header \<^verbatim>\<open>field2\<close>), the two values of the column \<^verbatim>\<open>a\<close> are both integers, so
  the vote gives integer, and \<^verbatim>\<open>getSchema\<close> ends in a TypeError and gives no schema.
\<close>

theorem getSchema_row_longer_than_first:
  "getSchema exampleRuntime [] ''/data/ragged.csv''
     [[(''a'', ''1'')], [(''a'', ''2''), (''field2'', ''3'')]] = Inl TypeError \<and>
   inferProperties exampleRuntime
     [[(''a'', ''1'')], [(''a'', ''2''), (''field2'', ''3'')]] = Inl TypeError \<and>
   columnValues 0 [[(''a'', ''1'')], [(''a'', ''2''), (''field2'', ''3'')]] = [''1'', ''2''] \<and>
   tally exampleRuntime ''integer'' [''1'', ''2''] = 2 \<and>
   inferProperties exampleRuntime [[(''a'', ''1'')], [(''a'', ''2'')]] =
     Inr ([''a''], [\<lparr>pname = ''a'', ptype = ''integer''\<rparr>])"
  by code_simp

end
